theory Spec2Isabelle
  imports Main "HOL-Library.Word" "HOL-Library.Multiset"
begin

unbundle bit_operations_syntax

text \<open>
  A shallow embedding of the NZB triage engine of UsenetStreamer
  (\<^verbatim>\<open>src/services/triage/index.js\<close>) and of its runner (\<^verbatim>\<open>nzbTriageRunner.js\<close>).
  JavaScript strings are modelled as lists of characters with codes 0..255 (the Latin-1
  range of the UTF-16 code units), numbers as integers, byte buffers as lists of 8-bit
  words, thrown errors and rejected promises as the left injection of a sum,
  and everything the engine asks of its environment (the NNTP server, the file system,
  the random generator, the HTTP fetch) as explicit oracle parameters.
\<close>

section \<open>Bytes and errors\<close>

text \<open>
  A \<^verbatim>\<open>Buffer\<close> is a list of bytes. An error object carries the fields the engine
  reads: \<^verbatim>\<open>code\<close> (a number such as 430 or a string such as \<^verbatim>\<open>ECONNRESET\<close>; \<open>None\<close>
  when absent), \<^verbatim>\<open>message\<close>, and the truthiness of \<^verbatim>\<open>dropClient\<close>.
\<close>

type_synonym byte = "8 word"

datatype js_code = CodeNum int | CodeStr string

record js_error =
  code :: "js_code option"
  message :: "string option"
  dropClient :: bool

text \<open>The bytes of an ASCII string literal.\<close>

definition bytesOf :: "string \<Rightarrow> byte list" where
  "bytesOf s = map of_char s"

text \<open>\<^verbatim>\<open>String.prototype.startsWith\<close>\<close>

definition startsWith :: "'a list \<Rightarrow> 'a list \<Rightarrow> bool" where
  "startsWith l p = (take (length p) l = p)"

section \<open>Strings\<close>

text \<open>
  \<^verbatim>\<open>String.prototype.toLowerCase\<close> on the codes 0..255: the letters \<open>A\<close>..\<open>Z\<close> (65..90)
  and the Latin-1 capitals (192..222 but the multiplication sign 215) move up by 32,
  every other character stays.
\<close>

definition toLowerChar :: "char \<Rightarrow> char" where
  "toLowerChar c =
     (let n = (of_char c :: nat)
      in if (65 \<le> n \<and> n \<le> 90) \<or> (192 \<le> n \<and> n \<le> 222 \<and> n \<noteq> 215)
         then char_of (n + 32) else c)"

text \<open>\<^verbatim>\<open>\d\<close>: the digits \<open>0\<close>..\<open>9\<close>.\<close>

definition isDigit :: "char \<Rightarrow> bool" where
  "isDigit c = (let n = (of_char c :: nat) in 48 \<le> n \<and> n \<le> 57)"

text \<open>
  JavaScript truthiness of a value that is a string or absent: \<^verbatim>\<open>null\<close>,
  \<^verbatim>\<open>undefined\<close> and the empty string are falsy.
\<close>

definition truthy :: "string option \<Rightarrow> bool" where
  "truthy s = (case s of None \<Rightarrow> False | Some t \<Rightarrow> t \<noteq> [])"

definition toLowerCase :: "string \<Rightarrow> string" where
  "toLowerCase s = map toLowerChar s"

text \<open>
  \<open>ciStartsWith s p\<close>: the string \<open>s\<close> begins with \<open>p\<close>, compared case-insensitively
  (the \<^verbatim>\<open>i\<close> flag of the regular expressions below).
\<close>

fun ciStartsWith :: "string \<Rightarrow> string \<Rightarrow> bool" where
  "ciStartsWith s [] = True"
| "ciStartsWith [] (p # ps) = False"
| "ciStartsWith (c # cs) (p # ps) = (toLowerChar c = toLowerChar p \<and> ciStartsWith cs ps)"

section \<open>The canonical archive key\<close>

text \<open>
  \<^verbatim>\<open>/\.part\d+\.rar$/i\<close>. The pattern is anchored at the end of the string, so a match is
  a suffix; it is read here from the end: \<open>.rar\<close>, then the (non-empty) run of digits, then
  \<open>.part\<close>. The result is the text before the match.
\<close>

definition matchPartRar :: "string \<Rightarrow> string option" where
  "matchPartRar s =
     (let r = rev s in
      if ciStartsWith r ''rar.'' then
        (let afterRar = drop 4 r;
             digits = takeWhile isDigit afterRar;
             beforeDigits = dropWhile isDigit afterRar
         in if digits \<noteq> [] \<and> ciStartsWith beforeDigits ''trap.''
            then Some (rev (drop 5 beforeDigits)) else None)
      else None)"

text \<open>\<^verbatim>\<open>key.replace(/\.part\d+\.rar$/i, '.rar')\<close>\<close>

definition replacePartRar :: "string \<Rightarrow> string" where
  "replacePartRar s = (case matchPartRar s of None \<Rightarrow> s | Some pre \<Rightarrow> pre @ ''.rar'')"

text \<open>\<^verbatim>\<open>/\.r\d{2}$/i\<close>: the last four characters are a dot, an r and two digits.\<close>

definition matchRNN :: "string \<Rightarrow> string option" where
  "matchRNN s =
     (case rev s of
        d2 # d1 # r # dot # pre \<Rightarrow>
          if isDigit d2 \<and> isDigit d1 \<and> toLowerChar r = CHR ''r'' \<and> dot = CHR ''.''
          then Some (rev pre) else None
      | _ \<Rightarrow> None)"

text \<open>\<^verbatim>\<open>key.replace(/\.r\d{2}$/i, '.rar')\<close>\<close>

definition replaceRNN :: "string \<Rightarrow> string" where
  "replaceRNN s = (case matchRNN s of None \<Rightarrow> s | Some pre \<Rightarrow> pre @ ''.rar'')"

text \<open>
  \<^verbatim>\<open>canonicalArchiveKey(name)\<close>: \<open>None\<close> is JavaScript's \<^verbatim>\<open>null\<close>; a falsy name
  (\<^verbatim>\<open>null\<close> or the empty string) gives \<^verbatim>\<open>null\<close>.
\<close>

definition canonicalArchiveKey :: "string option \<Rightarrow> string option" where
  "canonicalArchiveKey name =
     (case name of
        None \<Rightarrow> None
      | Some n \<Rightarrow> if n = [] then None
                  else Some (replaceRNN (replacePartRar (toLowerCase n))))"

subsection \<open>Properties of the key\<close>

lemma toLowerChar_idem: "toLowerChar (toLowerChar c) = toLowerChar c"
  by (auto simp: toLowerChar_def Let_def)

lemma toLowerCase_idem: "toLowerCase (toLowerCase s) = toLowerCase s"
  by (simp add: toLowerCase_def toLowerChar_idem)

lemma toLowerCase_append: "toLowerCase (a @ b) = toLowerCase a @ toLowerCase b"
  by (simp add: toLowerCase_def)

lemma ciStartsWith_length: "ciStartsWith s p \<Longrightarrow> length p \<le> length s"
  by (induction s p rule: ciStartsWith.induct) auto

lemma matchPartRar_SomeD:
  assumes "matchPartRar s = Some pre"
  shows "\<exists>suf. s = pre @ suf \<and> 10 \<le> length suf"
proof -
  define r where "r = rev s"
  define b where "b = dropWhile isDigit (drop 4 r)"
  define ds where "ds = takeWhile isDigit (drop 4 r)"
  from assms have c1: "ciStartsWith r ''rar.''" and c2: "ds \<noteq> []"
    and c3: "ciStartsWith b ''trap.''" and pre: "pre = rev (drop 5 b)"
    by (auto simp: matchPartRar_def Let_def r_def b_def ds_def split: if_splits)
  have l1: "4 \<le> length r" using ciStartsWith_length [OF c1] by simp
  have l2: "5 \<le> length b" using ciStartsWith_length [OF c3] by simp
  have "r = take 4 r @ drop 4 r" by simp
  also have "drop 4 r = ds @ b" by (simp add: ds_def b_def)
  also have "b = take 5 b @ drop 5 b" by simp
  finally have "r = take 4 r @ ds @ take 5 b @ drop 5 b" .
  then have "rev r = rev (drop 5 b) @ rev (take 5 b) @ rev ds @ rev (take 4 r)"
    by (metis append_assoc rev_append)
  then have "s = pre @ (rev (take 5 b) @ rev ds @ rev (take 4 r))"
    by (simp add: r_def pre)
  moreover have "10 \<le> length (rev (take 5 b) @ rev ds @ rev (take 4 r))"
    using l1 l2 c2 by (cases ds) auto
  ultimately show ?thesis by blast
qed

lemma matchRNN_SomeD:
  "matchRNN s = Some pre \<Longrightarrow> \<exists>suf. s = pre @ suf \<and> length suf = 4"
  by (auto simp: matchRNN_def rev_eq_Cons_iff split: list.splits if_splits)

lemma matchRNN_rar: "matchRNN (pre @ ''.rar'') = None"
  by (simp add: matchRNN_def isDigit_def)

lemma replaceRNN_rar: "replaceRNN (pre @ ''.rar'') = pre @ ''.rar''"
  by (simp add: replaceRNN_def matchRNN_rar)

lemma matchRNN_replaceRNN: "matchRNN (replaceRNN y) = None"
  by (cases "matchRNN y") (simp_all add: replaceRNN_def matchRNN_rar)

lemma toLowerCase_rar: "toLowerCase ''.rar'' = ''.rar''"
  by (simp add: toLowerCase_def toLowerChar_def)

lemma lower_prefix: "toLowerCase (a @ b) = a @ b \<Longrightarrow> toLowerCase a = a"
  by (simp add: toLowerCase_def)

lemma replacePartRar_lower:
  assumes "toLowerCase s = s" shows "toLowerCase (replacePartRar s) = replacePartRar s"
proof (cases "matchPartRar s")
  case None
  then show ?thesis using assms by (simp add: replacePartRar_def)
next
  case (Some pre)
  then obtain suf where "s = pre @ suf" using matchPartRar_SomeD by blast
  with assms have "toLowerCase pre = pre" using lower_prefix by metis
  with Some show ?thesis
    by (simp add: replacePartRar_def toLowerCase_append toLowerCase_rar)
qed

lemma replaceRNN_lower:
  assumes "toLowerCase s = s" shows "toLowerCase (replaceRNN s) = replaceRNN s"
proof (cases "matchRNN s")
  case None
  then show ?thesis using assms by (simp add: replaceRNN_def)
next
  case (Some pre)
  then obtain suf where "s = pre @ suf" using matchRNN_SomeD by blast
  with assms have "toLowerCase pre = pre" using lower_prefix by metis
  with Some show ?thesis
    by (simp add: replaceRNN_def toLowerCase_append toLowerCase_rar)
qed

lemma replacePartRar_nonempty: "s \<noteq> [] \<Longrightarrow> replacePartRar s \<noteq> []"
  by (simp add: replacePartRar_def split: option.splits)

lemma replaceRNN_nonempty: "s \<noteq> [] \<Longrightarrow> replaceRNN s \<noteq> []"
  by (simp add: replaceRNN_def split: option.splits)

lemma replacePartRar_fix: "replacePartRar k = k \<longleftrightarrow> matchPartRar k = None"
proof (cases "matchPartRar k")
  case None
  then show ?thesis by (simp add: replacePartRar_def)
next
  case (Some pre)
  then obtain suf where "k = pre @ suf" "10 \<le> length suf"
    using matchPartRar_SomeD by blast
  then have "length (pre @ ''.rar'') \<noteq> length k" by simp
  then have "pre @ ''.rar'' \<noteq> k" by metis
  with Some show ?thesis by (simp add: replacePartRar_def)
qed

lemma key_Some_props:
  assumes "canonicalArchiveKey x = Some k"
  shows "k \<noteq> [] \<and> toLowerCase k = k \<and> matchRNN k = None"
proof -
  from assms obtain n where n: "x = Some n" "n \<noteq> []"
    and k: "k = replaceRNN (replacePartRar (toLowerCase n))"
    by (auto simp: canonicalArchiveKey_def split: option.splits if_splits)
  have "toLowerCase n \<noteq> []" using n by (simp add: toLowerCase_def)
  then have "k \<noteq> []" unfolding k by (intro replaceRNN_nonempty replacePartRar_nonempty)
  moreover have "toLowerCase k = k" unfolding k
    by (intro replaceRNN_lower replacePartRar_lower toLowerCase_idem)
  moreover have "matchRNN k = None" unfolding k by (rule matchRNN_replaceRNN)
  ultimately show ?thesis by simp
qed

text \<open>
  C8 (as amended). The canonical archive key is not idempotent in general: each of the
  two suffix replacements is applied once. Applying the key a second time leaves it
  unchanged exactly when the key does not itself end in \<open>.part<digits>.rar\<close>.
\<close>

theorem canonicalArchiveKey_idempotent_iff:
  "canonicalArchiveKey (canonicalArchiveKey x) = canonicalArchiveKey x
     \<longleftrightarrow> (\<forall>k. canonicalArchiveKey x = Some k \<longrightarrow> matchPartRar k = None)"
proof (cases "canonicalArchiveKey x")
  case None
  then show ?thesis by (simp add: canonicalArchiveKey_def)
next
  case (Some k)
  then have p: "k \<noteq> []" "toLowerCase k = k" "matchRNN k = None"
    using key_Some_props by blast+
  have kk: "canonicalArchiveKey (Some k) = Some (replaceRNN (replacePartRar k))"
    using p by (simp add: canonicalArchiveKey_def)
  show ?thesis
  proof (cases "matchPartRar k")
    case None
    then have "replaceRNN (replacePartRar k) = k"
      using p by (simp add: replacePartRar_def replaceRNN_def)
    with Some kk None show ?thesis by simp
  next
    case (Some pre)
    then have "replacePartRar k = pre @ ''.rar''" by (simp add: replacePartRar_def)
    then have "replaceRNN (replacePartRar k) = replacePartRar k"
      by (simp add: replaceRNN_rar)
    moreover have "replacePartRar k \<noteq> k" using Some replacePartRar_fix by simp
    ultimately show ?thesis using \<open>canonicalArchiveKey x = Some k\<close> kk Some by simp
  qed
qed

text \<open>
  C8 as stated fails: the key of \<open>a.part1.part2.rar\<close> is \<open>a.part1.rar\<close>, whose key is
  \<open>a.rar\<close>.
\<close>

theorem canonicalArchiveKey_not_idempotent:
  "canonicalArchiveKey (canonicalArchiveKey (Some ''a.part1.part2.rar''))
     \<noteq> canonicalArchiveKey (Some ''a.part1.part2.rar'')"
  by (simp add: canonicalArchiveKey_def replaceRNN_def replacePartRar_def matchRNN_def
      matchPartRar_def toLowerCase_def toLowerChar_def isDigit_def)

text \<open>The amended C8 at \<open>Movie.Part01.RAR\<close>, whose key \<open>movie.rar\<close> is a fixed point.\<close>

theorem canonicalArchiveKey_idempotent_iff_witness:
  "canonicalArchiveKey (Some ''Movie.Part01.RAR'') = Some ''movie.rar''
   \<and> matchPartRar ''movie.rar'' = None
   \<and> canonicalArchiveKey (canonicalArchiveKey (Some ''Movie.Part01.RAR''))
       = canonicalArchiveKey (Some ''Movie.Part01.RAR'')"
proof -
  have k: "canonicalArchiveKey (Some ''Movie.Part01.RAR'') = Some ''movie.rar''"
    by code_simp
  have m: "matchPartRar ''movie.rar'' = None"
    by code_simp
  from canonicalArchiveKey_idempotent_iff [of "Some ''Movie.Part01.RAR''"] k m
  show ?thesis by simp
qed

section \<open>The yEnc decoder\<close>

text \<open>
  \<^verbatim>\<open>bodyBuffer.toString('binary').split('\r\n')\<close>: the \<^verbatim>\<open>binary\<close> encoding maps each
  byte to one character and back, so the lines are lists of bytes. Splitting the empty
  buffer gives one empty line, as in JavaScript.
\<close>

fun splitCRLF :: "byte list \<Rightarrow> byte list list" where
  "splitCRLF [] = [[]]"
| "splitCRLF [c] = [[c]]"
| "splitCRLF (c # d # ds) =
     (if c = 0x0D \<and> d = 0x0A then [] # splitCRLF ds
      else (case splitCRLF (d # ds) of
              l # ls \<Rightarrow> (c # l) # ls
            | [] \<Rightarrow> [[c]]))"

text \<open>
  The state of the decoding loops: the loop either ran into
  \<^verbatim>\<open>if (writeIndex >= maxBytes) return out\<close>, or goes on with the output buffer and the
  write index.
\<close>

datatype decode_state = Returned "byte list" | Continued "byte list" nat

text \<open>
  The inner \<^verbatim>\<open>for (let i = 0; i < src.length; i += 1)\<close> loop over one line. An \<open>=\<close>
  (0x3D) that ends the line leaves the loop (\<^verbatim>\<open>if (i >= src.length) break\<close>) with nothing
  written. \<^verbatim>\<open>out[writeIndex] = byte\<close> on a \<^verbatim>\<open>Buffer\<close> ignores an index out of range,
  as list update does. Bytes are 8-bit words, so \<^verbatim>\<open>& 0xff\<close> is the wrap-around of \<open>-\<close>.
\<close>

fun decodeLine :: "nat \<Rightarrow> byte list \<Rightarrow> byte list \<Rightarrow> nat \<Rightarrow> decode_state" where
  "decodeLine maxBytes [] out writeIndex = Continued out writeIndex"
| "decodeLine maxBytes (b # rest) out writeIndex =
     (if b = 0x3D then
        (case rest of
           [] \<Rightarrow> Continued out writeIndex
         | n # rest' \<Rightarrow>
             (let out' = out[writeIndex := (n - 64) - 42]; writeIndex' = writeIndex + 1
              in if writeIndex' \<ge> maxBytes then Returned out'
                 else decodeLine maxBytes rest' out' writeIndex'))
      else
        (let out' = out[writeIndex := b - 42]; writeIndex' = writeIndex + 1
         in if writeIndex' \<ge> maxBytes then Returned out'
            else decodeLine maxBytes rest out' writeIndex'))"

text \<open>The outer \<^verbatim>\<open>for (const line of lines)\<close> loop, with the flag \<^verbatim>\<open>decoding\<close>.\<close>

fun decodeLines :: "nat \<Rightarrow> byte list list \<Rightarrow> bool \<Rightarrow> byte list \<Rightarrow> nat \<Rightarrow> decode_state" where
  "decodeLines maxBytes [] decoding out writeIndex = Continued out writeIndex"
| "decodeLines maxBytes (line # lines) decoding out writeIndex =
     (if \<not> decoding then
        decodeLines maxBytes lines (startsWith line (bytesOf ''=ybegin'')) out writeIndex
      else if startsWith line (bytesOf ''=ypart'') then
        decodeLines maxBytes lines decoding out writeIndex
      else if startsWith line (bytesOf ''=yend'') then Continued out writeIndex
      else (case decodeLine maxBytes line out writeIndex of
              Returned out' \<Rightarrow> Returned out'
            | Continued out' writeIndex' \<Rightarrow>
                decodeLines maxBytes lines decoding out' writeIndex'))"

text \<open>\<^verbatim>\<open>new Error('No yEnc payload detected')\<close> with \<^verbatim>\<open>code = 'DECODE_ERROR'\<close>\<close>

definition decodeError :: js_error where
  "decodeError = \<lparr>code = Some (CodeStr ''DECODE_ERROR''),
                   message = Some ''No yEnc payload detected'', dropClient = False\<rparr>"

text \<open>
  \<^verbatim>\<open>decodeYencBuffer(bodyBuffer, maxBytes)\<close>; \<^verbatim>\<open>Buffer.alloc(maxBytes)\<close> is zero-filled.
  \<open>maxBytes\<close> is a natural number (\<^verbatim>\<open>Buffer.alloc\<close> refuses anything else).
\<close>

definition decodeYencBuffer :: "byte list \<Rightarrow> nat \<Rightarrow> js_error + byte list" where
  "decodeYencBuffer bodyBuffer maxBytes =
     (case decodeLines maxBytes (splitCRLF bodyBuffer) False (replicate maxBytes 0) 0 of
        Returned out \<Rightarrow> Inr out
      | Continued out writeIndex \<Rightarrow>
          if writeIndex = 0 then Inl decodeError else Inr (take writeIndex out))"

subsection \<open>The decoder as the specification words it\<close>

text \<open>
  For each byte \<open>c\<close> of a payload line: if \<open>c\<close> is \<open>=\<close> (0x3D), consume one more byte \<open>n\<close>
  and emit \<open>((n - 64) - 42) mod 256\<close>; else emit \<open>(c - 42) mod 256\<close>. An \<open>=\<close> with no byte
  after it on its line emits nothing.
\<close>

fun yencLine :: "byte list \<Rightarrow> byte list" where
  "yencLine [] = []"
| "yencLine (c # rest) =
     (if c = 0x3D then
        (case rest of [] \<Rightarrow> [] | n # rest' \<Rightarrow> ((n - 64) - 42) # yencLine rest')
      else (c - 42) # yencLine rest)"

text \<open>
  The payload lines: skip lines until one begins with \<open>=ybegin\<close>; of the lines after
  it, stop at the first that begins with \<open>=yend\<close> and skip those that begin with
  \<open>=ypart\<close>.
\<close>

definition payloadAfterBegin :: "byte list list \<Rightarrow> byte list list" where
  "payloadAfterBegin lines =
     filter (\<lambda>l. \<not> startsWith l (bytesOf ''=ypart''))
       (takeWhile (\<lambda>l. \<not> startsWith l (bytesOf ''=yend'')) lines)"

definition payloadLines :: "byte list list \<Rightarrow> byte list list" where
  "payloadLines lines =
     payloadAfterBegin (drop 1 (dropWhile (\<lambda>l. \<not> startsWith l (bytesOf ''=ybegin'')) lines))"

definition yencPayload :: "byte list \<Rightarrow> byte list" where
  "yencPayload bodyBuffer = concat (map yencLine (payloadLines (splitCRLF bodyBuffer)))"

subsection \<open>The loops compute the specification's payload\<close>

text \<open>
  \<open>capOk M wi\<close>: the write index is below the cap, or the cap is 0 and nothing has been
  written yet (the loop tests the cap only after a write).
\<close>

definition capOk :: "nat \<Rightarrow> nat \<Rightarrow> bool" where
  "capOk M wi = (wi < M \<or> (M = 0 \<and> wi = 0))"

lemma take_Suc_update:
  "wi < length out \<Longrightarrow> take (Suc wi) (out[wi := v]) = take wi out @ [v]"
  by (simp add: take_Suc_conv_app_nth)

text \<open>
  What a loop that started with buffer \<open>out\<close> and index \<open>wi\<close> and had the bytes \<open>e\<close> to
  emit has done when it ends in state \<open>r\<close>.
\<close>

definition lineInv :: "nat \<Rightarrow> byte list \<Rightarrow> nat \<Rightarrow> byte list \<Rightarrow> decode_state \<Rightarrow> bool" where
  "lineInv M out wi e r =
     (case r of
        Returned out' \<Rightarrow> e \<noteq> [] \<and> M \<le> wi + length e \<and> out' = take M (take wi out @ e)
      | Continued out' wi' \<Rightarrow> wi' = wi + length e \<and> length out' = M
                            \<and> take wi' out' = take wi out @ e \<and> capOk M wi')"

lemma emit_step:
  assumes len: "length out = M" and cap: "capOk M wi"
    and ih: "\<not> M \<le> wi + 1 \<Longrightarrow> lineInv M (out[wi := v]) (wi + 1) e r"
  shows "lineInv M out wi (v # e) (if M \<le> wi + 1 then Returned (out[wi := v]) else r)"
proof (cases "M \<le> wi + 1")
  case True
  show ?thesis
  proof (cases "M = 0")
    case True
    then show ?thesis using len by (simp add: lineInv_def)
  next
    case False
    with cap True have wi: "wi < M" "M = Suc wi" by (auto simp: capOk_def)
    have a: "take (Suc wi) (out[wi := v]) = take wi out @ [v]"
      using len wi by (intro take_Suc_update) simp
    have "take (Suc wi) (out[wi := v]) = out[wi := v]" using len wi by simp
    with a have eq: "out[wi := v] = take wi out @ [v]" by metis
    have "take M (take wi out @ v # e) = take wi out @ [v]" using wi len by simp
    with eq True show ?thesis by (simp add: lineInv_def)
  qed
next
  case False
  then have wi: "wi < M" by simp
  have t: "take (Suc wi) (out[wi := v]) = take wi out @ [v]"
    using len wi by (simp add: take_Suc_update)
  from ih [OF False] show ?thesis using False t
    by (auto simp: lineInv_def split: decode_state.splits)
qed

lemma decodeLine_spec:
  assumes "length out = M" "capOk M wi"
  shows "lineInv M out wi (yencLine l) (decodeLine M l out wi)"
  using assms
proof (induction M l out wi rule: decodeLine.induct)
  case (1 maxBytes out writeIndex)
  then show ?case by (simp add: lineInv_def)
next
  case (2 maxBytes b rest out writeIndex)
  show ?case
  proof (cases "b = 0x3D")
    case True
    show ?thesis
    proof (cases rest)
      case Nil
      then show ?thesis using True 2 by (simp add: lineInv_def)
    next
      case (Cons n rest')
      have "lineInv maxBytes out writeIndex (((n - 64) - 42) # yencLine rest')
              (if maxBytes \<le> writeIndex + 1 then Returned (out[writeIndex := (n - 64) - 42])
               else decodeLine maxBytes rest' (out[writeIndex := (n - 64) - 42]) (writeIndex + 1))"
      proof (rule emit_step)
        show "length out = maxBytes" by fact
        show "capOk maxBytes writeIndex" by fact
        assume a: "\<not> maxBytes \<le> writeIndex + 1"
        then have "capOk maxBytes (writeIndex + 1)" by (simp add: capOk_def)
        with a 2 True Cons
        show "lineInv maxBytes (out[writeIndex := (n - 64) - 42]) (writeIndex + 1)
                (yencLine rest') (decodeLine maxBytes rest' (out[writeIndex := (n - 64) - 42]) (writeIndex + 1))"
          by simp
      qed
      then show ?thesis using True Cons by (simp add: Let_def cong: if_cong)
    qed
  next
    case False
    have "lineInv maxBytes out writeIndex ((b - 42) # yencLine rest)
            (if maxBytes \<le> writeIndex + 1 then Returned (out[writeIndex := b - 42])
             else decodeLine maxBytes rest (out[writeIndex := b - 42]) (writeIndex + 1))"
    proof (rule emit_step)
      show "length out = maxBytes" by fact
      show "capOk maxBytes writeIndex" by fact
      assume a: "\<not> maxBytes \<le> writeIndex + 1"
      then have "capOk maxBytes (writeIndex + 1)" by (simp add: capOk_def)
      with a 2 False
      show "lineInv maxBytes (out[writeIndex := b - 42]) (writeIndex + 1)
              (yencLine rest) (decodeLine maxBytes rest (out[writeIndex := b - 42]) (writeIndex + 1))"
        by simp
    qed
    then show ?thesis using False by (simp add: Let_def cong: if_cong)
  qed
qed

text \<open>The payload lines still ahead of the outer loop, by its flag.\<close>

definition payloadFrom :: "bool \<Rightarrow> byte list list \<Rightarrow> byte list list" where
  "payloadFrom decoding lines = (if decoding then payloadAfterBegin lines else payloadLines lines)"

lemma payloadFrom_Nil: "payloadFrom d [] = []"
  by (simp add: payloadFrom_def payloadAfterBegin_def payloadLines_def)

lemma payloadFrom_not_decoding:
  "payloadFrom False (l # ls) = payloadFrom (startsWith l (bytesOf ''=ybegin'')) ls"
  by (simp add: payloadFrom_def payloadLines_def)

lemma ypart_not_yend:
  assumes "startsWith l (bytesOf ''=ypart'')" shows "\<not> startsWith l (bytesOf ''=yend'')"
proof
  have l5: "length (bytesOf ''=yend'') = 5" and l6: "length (bytesOf ''=ypart'') = 6"
    by (simp_all add: bytesOf_def)
  assume "startsWith l (bytesOf ''=yend'')"
  then have e: "take 5 l = bytesOf ''=yend''" unfolding startsWith_def l5 .
  from assms have p: "take 6 l = bytesOf ''=ypart''" unfolding startsWith_def l6 .
  have "take 3 (take 6 l) = take 3 (take 5 l)" by simp
  then have "take 3 (bytesOf ''=ypart'') = take 3 (bytesOf ''=yend'')"
    unfolding e p .
  then show False by (simp add: bytesOf_def)
qed

lemma payloadFrom_ypart:
  "startsWith l (bytesOf ''=ypart'') \<Longrightarrow> payloadFrom True (l # ls) = payloadFrom True ls"
  by (simp add: payloadFrom_def payloadAfterBegin_def ypart_not_yend)

lemma payloadFrom_yend:
  "\<not> startsWith l (bytesOf ''=ypart'') \<Longrightarrow> startsWith l (bytesOf ''=yend'')
     \<Longrightarrow> payloadFrom True (l # ls) = []"
  by (simp add: payloadFrom_def payloadAfterBegin_def)

lemma payloadFrom_data:
  "\<not> startsWith l (bytesOf ''=ypart'') \<Longrightarrow> \<not> startsWith l (bytesOf ''=yend'')
     \<Longrightarrow> payloadFrom True (l # ls) = l # payloadFrom True ls"
  by (simp add: payloadFrom_def payloadAfterBegin_def)

lemma lineInv_chain:
  assumes "lineInv M out wi e1 (Continued out' wi')"
    and "lineInv M out' wi' e2 r"
  shows "lineInv M out wi (e1 @ e2) r"
  using assms by (auto simp: lineInv_def split: decode_state.splits)

lemma lineInv_Returned_app:
  assumes "lineInv M out wi e1 (Returned out')" and "length out = M" "capOk M wi"
  shows "lineInv M out wi (e1 @ e2) (Returned out')"
  using assms by (auto simp: lineInv_def capOk_def)

lemma decodeLines_spec:
  assumes "length out = M" "capOk M wi"
  shows "lineInv M out wi (concat (map yencLine (payloadFrom decoding lines)))
           (decodeLines M lines decoding out wi)"
  using assms
proof (induction M lines decoding out wi rule: decodeLines.induct)
  case (1 maxBytes decoding out writeIndex)
  then show ?case by (simp add: payloadFrom_Nil lineInv_def)
next
  case (2 maxBytes line lines decoding out writeIndex)
  show ?case
  proof (cases decoding)
    case False
    then show ?thesis using 2 by (simp add: payloadFrom_not_decoding)
  next
    case True
    note dec = this
    show ?thesis
    proof (cases "startsWith line (bytesOf ''=ypart'')")
      case True
      then show ?thesis using 2 dec by (simp add: payloadFrom_ypart)
    next
      case False
      note np = this
      show ?thesis
      proof (cases "startsWith line (bytesOf ''=yend'')")
        case True
        then show ?thesis using 2 dec np by (simp add: payloadFrom_yend lineInv_def)
      next
        case False
        have li: "lineInv maxBytes out writeIndex (yencLine line) (decodeLine maxBytes line out writeIndex)"
          using 2 by (intro decodeLine_spec)
        show ?thesis
        proof (cases "decodeLine maxBytes line out writeIndex")
          case (Returned out')
          with li have "lineInv maxBytes out writeIndex
              (yencLine line @ concat (map yencLine (payloadFrom True lines))) (Returned out')"
            using 2 by (intro lineInv_Returned_app) simp_all
          then show ?thesis using dec np False Returned by (simp add: payloadFrom_data)
        next
          case (Continued out' wi')
          with li have c: "lineInv maxBytes out writeIndex (yencLine line) (Continued out' wi')"
            by simp
          then have "length out' = maxBytes" "capOk maxBytes wi'" by (auto simp: lineInv_def)
          with 2 dec np False Continued
          have "lineInv maxBytes out' wi' (concat (map yencLine (payloadFrom True lines)))
                  (decodeLines maxBytes lines True out' wi')"
            by simp
          from lineInv_chain [OF c this]
          show ?thesis using dec np False Continued by (simp add: payloadFrom_data)
        qed
      qed
    qed
  qed
qed

lemma decodeYencBuffer_spec:
  "decodeYencBuffer bodyBuffer maxBytes =
     (if yencPayload bodyBuffer = [] then Inl decodeError
      else Inr (take maxBytes (yencPayload bodyBuffer)))"
proof -
  define E where "E = yencPayload bodyBuffer"
  define r where "r = decodeLines maxBytes (splitCRLF bodyBuffer) False (replicate maxBytes 0) 0"
  have "capOk maxBytes 0" by (auto simp: capOk_def)
  then have "lineInv maxBytes (replicate maxBytes 0) 0 E r"
    unfolding E_def r_def yencPayload_def
    using decodeLines_spec [of "replicate maxBytes 0" maxBytes 0 False "splitCRLF bodyBuffer"]
    by (simp add: payloadFrom_def)
  then have "(case r of Returned out \<Rightarrow> Inr out
      | Continued out writeIndex \<Rightarrow>
          if writeIndex = 0 then Inl decodeError else Inr (take writeIndex out))
    = (if E = [] then Inl decodeError else Inr (take maxBytes E))"
    by (auto simp: lineInv_def capOk_def split: decode_state.splits)
  then show ?thesis by (simp add: decodeYencBuffer_def r_def E_def)
qed

text \<open>
  C5 (as amended). For every article body and cap \<open>maxBytes\<close> the decoder fails with
  \<open>DECODE_ERROR\<close> exactly when the payload (the bytes the specification's rule emits for
  the lines after \<open>=ybegin\<close> and before \<open>=yend\<close>) is empty; otherwise it returns the first
  \<open>maxBytes\<close> bytes of the payload, so never more than \<open>maxBytes\<close> bytes. With the cap 0
  and a payload that is not empty it returns the empty buffer and does not fail.
\<close>

theorem decodeYencBuffer_payload:
  "(case decodeYencBuffer bodyBuffer maxBytes of
      Inl err \<Rightarrow> err = decodeError \<and> code err = Some (CodeStr ''DECODE_ERROR'')
                 \<and> yencPayload bodyBuffer = []
    | Inr out \<Rightarrow> yencPayload bodyBuffer \<noteq> []
                 \<and> out = take maxBytes (yencPayload bodyBuffer)
                 \<and> length out \<le> maxBytes)"
  by (simp add: decodeYencBuffer_spec decodeError_def)

text \<open>
  C5 as stated fails at the cap 0: the body \<open>=ybegin\<close>, \<open>A\<close> decodes to no output byte
  at all, and the decoder returns the empty buffer instead of failing.
\<close>

theorem decodeYencBuffer_cap0_no_error:
  "decodeYencBuffer (bytesOf ''=ybegin'' @ [0x0D, 0x0A] @ bytesOf ''A'') 0 = Inr []"
  by code_simp

section \<open>The archive inspector\<close>

text \<open>
  The result of an inspection: the \<^verbatim>\<open>status\<close> string and the \<^verbatim>\<open>details\<close> the inspector
  attaches (the file name as its bytes with the NUL bytes removed, the method byte, a note).
\<close>

record archive_result =
  status :: string
  detailName :: "byte list option"
  detailMethod :: "byte option"
  detailNote :: "string option"

definition statusOnly :: "string \<Rightarrow> archive_result" where
  "statusOnly s = \<lparr>status = s, detailName = None, detailMethod = None, detailNote = None\<rparr>"

definition RAR4_SIGNATURE :: "byte list" where
  "RAR4_SIGNATURE = [0x52, 0x61, 0x72, 0x21, 0x1A, 0x07, 0x00]"

definition RAR5_SIGNATURE :: "byte list" where
  "RAR5_SIGNATURE = [0x52, 0x61, 0x72, 0x21, 0x1A, 0x07, 0x01, 0x00]"

text \<open>
  \<^verbatim>\<open>buffer.readUInt16LE(offset)\<close>. Every call of the inspector stands behind a bounds
  check that puts both bytes inside the buffer.
\<close>

definition readUInt16LE :: "byte list \<Rightarrow> nat \<Rightarrow> 16 word" where
  "readUInt16LE buffer offset =
     ucast (buffer ! offset) OR push_bit 8 (ucast (buffer ! (offset + 1)))"

text \<open>
  The body of \<^verbatim>\<open>if (headerType === 0x74)\<close> in \<^verbatim>\<open>inspectRar4\<close>, with the running
  position \<^verbatim>\<open>pos\<close> rebound at each \<^verbatim>\<open>pos += n\<close>.
\<close>

definition inspectFileHeader :: "byte list \<Rightarrow> nat \<Rightarrow> 16 word \<Rightarrow> archive_result" where
  "inspectFileHeader buffer offset headerFlags =
     (let pos = offset + 7 in
      if pos + 11 > length buffer then statusOnly ''rar-insufficient-data''
      else
        let pos = pos + 4 + 4 + 1 + 4 + 4 in
        if pos \<ge> length buffer then statusOnly ''rar-insufficient-data''
        else
          let pos = pos + 1;
              methodByte = buffer ! pos;
              pos = pos + 1
          in
          if pos + 2 > length buffer then statusOnly ''rar-insufficient-data''
          else
            let nameSize = unat (readUInt16LE buffer pos);
                pos = pos + 2;
                pos = pos + 4;
                pos = (if headerFlags AND 0x0100 \<noteq> 0 then pos + 4 else pos);
                pos = (if headerFlags AND 0x0200 \<noteq> 0 then pos + 4 else pos)
            in
            if pos + nameSize > length buffer then statusOnly ''rar-insufficient-data''
            else
              let name = filter (\<lambda>b. b \<noteq> 0) (take nameSize (drop pos buffer));
                  encrypted = (headerFlags AND 0x0004 \<noteq> 0);
                  solid = (headerFlags AND 0x0010 \<noteq> 0)
              in
              if encrypted then
                \<lparr>status = ''rar-encrypted'', detailName = Some name, detailMethod = None,
                 detailNote = None\<rparr>
              else if solid then
                \<lparr>status = ''rar-solid'', detailName = Some name, detailMethod = None,
                 detailNote = None\<rparr>
              else if methodByte \<noteq> 0x30 then
                \<lparr>status = ''rar-compressed'', detailName = Some name,
                 detailMethod = Some methodByte, detailNote = None\<rparr>
              else
                \<lparr>status = ''rar-stored'', detailName = Some name,
                 detailMethod = Some methodByte, detailNote = None\<rparr>)"

text \<open>
  The \<^verbatim>\<open>while (offset + 7 <= buffer.length)\<close> loop of \<^verbatim>\<open>inspectRar4\<close>. It terminates:
  a header that is skipped has \<open>headerSize \<ge> 7\<close>, so the offset grows.
\<close>

function inspectRar4_loop :: "byte list \<Rightarrow> nat \<Rightarrow> archive_result" where
  "inspectRar4_loop buffer offset =
     (if offset + 7 \<le> length buffer then
        (let headerType = buffer ! (offset + 2);
             headerFlags = readUInt16LE buffer (offset + 3);
             headerSize = unat (readUInt16LE buffer (offset + 5))
         in
         if headerSize < 7 then statusOnly ''rar-corrupt-header''
         else if offset + headerSize > length buffer then statusOnly ''rar-insufficient-data''
         else if headerType = 0x74 then inspectFileHeader buffer offset headerFlags
         else inspectRar4_loop buffer (offset + headerSize))
      else statusOnly ''rar-header-not-found'')"
  by pat_completeness auto
termination
  by (relation "measure (\<lambda>(buffer, offset). length buffer - offset)") auto

declare inspectRar4_loop.simps [simp del]

definition inspectRar4 :: "byte list \<Rightarrow> archive_result" where
  "inspectRar4 buffer = inspectRar4_loop buffer (length RAR4_SIGNATURE)"

definition inspectRar5 :: "byte list \<Rightarrow> archive_result" where
  "inspectRar5 buffer = \<lparr>status = ''rar-stored'', detailName = None, detailMethod = None,
                          detailNote = Some ''rar5-header-assumed-stored''\<rparr>"

definition inspectSevenZip :: "byte list \<Rightarrow> archive_result" where
  "inspectSevenZip buffer =
     (if length buffer < 32 then statusOnly ''sevenzip-insufficient-data''
      else
        let firstByte = buffer ! 6 in
        if firstByte = 0x00 then statusOnly ''sevenzip-stored''
        else \<lparr>status = ''sevenzip-unsupported'', detailName = None,
               detailMethod = Some firstByte, detailNote = None\<rparr>)"

definition inspectArchiveBuffer :: "byte list \<Rightarrow> archive_result" where
  "inspectArchiveBuffer buffer =
     (if length buffer \<ge> length RAR4_SIGNATURE
         \<and> take (length RAR4_SIGNATURE) buffer = RAR4_SIGNATURE then inspectRar4 buffer
      else if length buffer \<ge> length RAR5_SIGNATURE
         \<and> take (length RAR5_SIGNATURE) buffer = RAR5_SIGNATURE then inspectRar5 buffer
      else if length buffer \<ge> 6 \<and> buffer ! 0 = 0x37 \<and> buffer ! 1 = 0x7A
        then inspectSevenZip buffer
      else statusOnly ''rar-header-not-found'')"

subsection \<open>The walk over the block headers\<close>







subsection \<open>Properties of the inspector\<close>














section \<open>Decisions and findings\<close>

text \<open>
  An archive finding as the analyzer pushes it: \<^verbatim>\<open>source\<close>, \<^verbatim>\<open>filename\<close>,
  \<^verbatim>\<open>subject\<close>, \<^verbatim>\<open>status\<close>, and in place of the \<^verbatim>\<open>details\<close> the id of the segment
  that was probed, where one was.
\<close>

record finding =
  f_source :: string
  f_filename :: "string option"
  f_subject :: string
  f_status :: string
  f_segmentId :: "string option"

text \<open>
  The decision record of one NZB (\<^verbatim>\<open>buildDecision\<close>). The sets \<^verbatim>\<open>blockers\<close> and
  \<^verbatim>\<open>warnings\<close> have become arrays (\<^verbatim>\<open>Array.from\<close>), in insertion order.
\<close>

record nzb_decision =
  decision :: string
  blockers :: "string list"
  warnings :: "string list"
  fileCount :: nat
  nzbTitle :: "string option"
  nzbIndex :: nat
  archiveFindings :: "finding list"

text \<open>\<^verbatim>\<open>Set.prototype.add\<close> on a set kept as the list of its elements in insertion order.\<close>

definition setAdd :: "'a \<Rightarrow> 'a list \<Rightarrow> 'a list" where
  "setAdd x xs = (if x \<in> set xs then xs else xs @ [x])"

section \<open>The runner: candidates and ranking\<close>

text \<open>
  One entry of the runner's input list \<^verbatim>\<open>nzbResults\<close>, reduced to the fields
  \<^verbatim>\<open>buildCandidates\<close> reads. \<open>None\<close> is a field that is absent (for \<^verbatim>\<open>res_title\<close> and
  \<^verbatim>\<open>res_indexer\<close>: not a string; for \<^verbatim>\<open>res_size\<close>: absent or not a finite number).
  Sizes are byte counts, modelled as integers.
\<close>

record nzb_result =
  res_downloadUrl :: "string option"
  res_title :: "string option"
  res_indexerId :: "string option"
  res_indexer :: "string option"
  res_size :: "int option"

record candidate =
  result :: nzb_result
  index_in :: nat
  size_bytes :: int
  indexerId :: "string option"
  indexerName :: "string option"
  downloadUrl :: string
  title :: "string option"
  normalizedTitle :: string

text \<open>
  \<^verbatim>\<open>String.prototype.trim\<close>: the white space and line terminators among the codes
  0..255 are 9..13, 32 and 160.
\<close>

definition isSpace :: "char \<Rightarrow> bool" where
  "isSpace c = (let n = (of_char c :: nat) in (9 \<le> n \<and> n \<le> 13) \<or> n = 32 \<or> n = 160)"

definition trim :: "string \<Rightarrow> string" where
  "trim s = rev (dropWhile isSpace (rev (dropWhile isSpace s)))"

definition normalizeTitle :: "string option \<Rightarrow> string" where
  "normalizeTitle t = (case t of None \<Rightarrow> [] | Some s \<Rightarrow> if s = [] then [] else toLowerCase (trim s))"

text \<open>
  \<^verbatim>\<open>normalizeIndexerSet\<close>: \<open>None\<close> is an option that is not an array. The \<^verbatim>\<open>Set\<close> is
  a list here; the runner only asks it for membership and whether it is empty.
\<close>

definition normalizeIndexerSet :: "string list option \<Rightarrow> string list" where
  "normalizeIndexerSet indexers =
     (case indexers of
        None \<Rightarrow> []
      | Some entries \<Rightarrow> filter (\<lambda>e. e \<noteq> []) (map (\<lambda>entry. toLowerCase (trim entry)) entries))"

text \<open>
  \<^verbatim>\<open>buildCandidates\<close>: the \<^verbatim>\<open>forEach\<close> with the set \<^verbatim>\<open>seen\<close> and the array
  \<^verbatim>\<open>candidates\<close> as accumulators.
\<close>

fun buildCandidates_loop ::
  "nzb_result list \<Rightarrow> nat \<Rightarrow> string list \<Rightarrow> candidate list \<Rightarrow> candidate list" where
  "buildCandidates_loop [] index seen candidates = candidates"
| "buildCandidates_loop (r # rs) index seen candidates =
     (case res_downloadUrl r of
        None \<Rightarrow> buildCandidates_loop rs (index + 1) seen candidates
      | Some url \<Rightarrow>
          if url = [] \<or> url \<in> set seen
          then buildCandidates_loop rs (index + 1) seen candidates
          else buildCandidates_loop rs (index + 1) (seen @ [url])
                 (candidates @
                  [\<lparr>result = r, index_in = index,
                    size_bytes = (case res_size r of None \<Rightarrow> 0 | Some n \<Rightarrow> n),
                    indexerId = res_indexerId r,
                    indexerName = res_indexer r,
                    downloadUrl = url,
                    title = res_title r,
                    normalizedTitle = normalizeTitle (res_title r)\<rparr>]))"

definition buildCandidates :: "nzb_result list \<Rightarrow> candidate list" where
  "buildCandidates nzbResults = buildCandidates_loop nzbResults 0 [] []"

text \<open>
  The filter predicate of \<^verbatim>\<open>prioritized\<close> in \<^verbatim>\<open>rankCandidates\<close>; the predicate of
  \<^verbatim>\<open>fallback\<close> is its negation, and with an empty set \<^verbatim>\<open>prioritized\<close> is empty and
  \<^verbatim>\<open>fallback\<close> is the whole list.
\<close>

definition isPreferred :: "string list \<Rightarrow> candidate \<Rightarrow> bool" where
  "isPreferred preferredIndexerSet c =
     (preferredIndexerSet \<noteq> [] \<and>
      (let ident = (if truthy (indexerId c) then map_option toLowerCase (indexerId c) else None);
           name = (if truthy (indexerName c) then map_option toLowerCase (indexerName c) else None)
       in (case ident of Some i \<Rightarrow> i \<in> set preferredIndexerSet | None \<Rightarrow> False)
          \<or> (case name of Some n \<Rightarrow> n \<in> set preferredIndexerSet | None \<Rightarrow> False)))"

text \<open>
  The comparator: \<open>Some p\<close> is a finite \<^verbatim>\<open>preferredSizeBytes\<close>. (\<^verbatim>\<open>a.size || 0\<close> is
  \<^verbatim>\<open>a.size\<close>, a finite number since \<^verbatim>\<open>buildCandidates\<close>.)
\<close>

definition comparator :: "int option \<Rightarrow> candidate \<Rightarrow> candidate \<Rightarrow> int" where
  "comparator preferredSizeBytes a b =
     (case preferredSizeBytes of
        Some p \<Rightarrow>
          (let deltaA = \<bar>size_bytes a - p\<bar>; deltaB = \<bar>size_bytes b - p\<bar>
           in if deltaA \<noteq> deltaB then deltaA - deltaB else size_bytes b - size_bytes a)
      | None \<Rightarrow> size_bytes b - size_bytes a)"

text \<open>
  \<^verbatim>\<open>Array.prototype.sort\<close> with a comparator. ECMAScript requires the sort to be
  stable, and for a consistent comparator every stable sort gives the same array, the
  one that insertion from the right computes: an element goes before the first element
  it does not compare greater than.
\<close>

fun jsInsert :: "('a \<Rightarrow> 'a \<Rightarrow> int) \<Rightarrow> 'a \<Rightarrow> 'a list \<Rightarrow> 'a list" where
  "jsInsert cmp x [] = [x]"
| "jsInsert cmp x (y # ys) = (if cmp x y \<le> 0 then x # y # ys else y # jsInsert cmp x ys)"

definition jsSort :: "('a \<Rightarrow> 'a \<Rightarrow> int) \<Rightarrow> 'a list \<Rightarrow> 'a list" where
  "jsSort cmp xs = foldr (jsInsert cmp) xs []"

definition rankCandidates :: "candidate list \<Rightarrow> int option \<Rightarrow> string list \<Rightarrow> candidate list" where
  "rankCandidates candidates preferredSizeBytes preferredIndexerSet =
     (let prioritized = filter (isPreferred preferredIndexerSet) candidates;
          fallback = filter (\<lambda>c. \<not> isPreferred preferredIndexerSet c) candidates
      in jsSort (comparator preferredSizeBytes) prioritized
         @ jsSort (comparator preferredSizeBytes) fallback)"


subsection \<open>Properties of the ranking\<close>





lemma set_jsInsert: "set (jsInsert cmp x ys) = insert x (set ys)"
  by (induction ys) auto

lemma mset_jsInsert: "mset (jsInsert cmp x ys) = add_mset x (mset ys)"
  by (induction ys) auto

lemma mset_jsSort: "mset (jsSort cmp xs) = mset xs"
  by (induction xs) (auto simp: jsSort_def mset_jsInsert)

lemma set_jsSort: "set (jsSort cmp xs) = set xs"
  by (induction xs) (auto simp: jsSort_def set_jsInsert)









lemma mset_rankCandidates: "mset (rankCandidates cs p S) = mset cs"
  by (simp add: rankCandidates_def Let_def mset_jsSort)

lemma set_rankCandidates: "set (rankCandidates cs p S) = set cs"
  using mset_rankCandidates [of cs p S] by (metis set_mset_mset)


text \<open>
  Three results of 900, 1050 and 2000 million bytes, the second and third from the
  indexer \<open>Alpha\<close>.
\<close>

definition sampleResults :: "nzb_result list" where
  "sampleResults =
     [\<lparr>res_downloadUrl = Some ''http://a/1'', res_title = Some ''One'',
       res_indexerId = Some ''7'', res_indexer = Some ''Beta'', res_size = Some 900000000\<rparr>,
      \<lparr>res_downloadUrl = Some ''http://a/2'', res_title = Some ''Two'',
       res_indexerId = Some ''3'', res_indexer = Some ''Alpha'', res_size = Some 1050000000\<rparr>,
      \<lparr>res_downloadUrl = Some ''http://a/3'', res_title = Some ''Three'',
       res_indexerId = Some ''3'', res_indexer = Some ''Alpha'', res_size = Some 2000000000\<rparr>]"


section \<open>The runner: triage and rank\<close>

text \<open>The options of \<^verbatim>\<open>triageAndRank\<close> that decide which candidates are looked at.\<close>

record options =
  timeBudgetMs :: "int option"
  maxCandidates :: "int option"
  downloadConcurrency :: "int option"
  preferredSizeBytes :: "int option"
  preferredIndexerIds :: "string list option"

text \<open>
  What the runner asks of the world: the outcome of \<^verbatim>\<open>axios.get\<close> for a URL (an error,
  or the response text), the milliseconds elapsed since the start when the download
  loop looks at an index, the time at which the fetch of a URL completes (payloads and
  failures are recorded in completion order), the milliseconds elapsed after the
  downloads, and the outcome of \<^verbatim>\<open>withTimeout(triageNzbs(...))\<close> on the payloads (an
  error, \<^verbatim>\<open>TRIAGE_TIMEOUT\<close> among them, or the decisions of the summary).
\<close>

record runner_env =
  fetchNzb :: "string \<Rightarrow> js_error + string"
  elapsedAtDispatch :: "nat \<Rightarrow> int"
  completedAt :: "string \<Rightarrow> int"
  elapsedAfterDownloads :: int
  triageNzbs :: "string list \<Rightarrow> js_error + nzb_decision list"

text \<open>One entry of the returned \<^verbatim>\<open>decisions\<close> map.\<close>

record summary =
  s_status :: string
  s_error :: "string option"
  s_blockers :: "string list"
  s_warnings :: "string list"
  s_nzbIndex :: "nat option"
  s_fileCount :: "nat option"
  s_archiveFindings :: "finding list"
  s_title :: "string option"
  s_normalizedTitle :: "string option"
  s_indexerId :: "string option"
  s_indexerName :: "string option"

text \<open>
  A \<^verbatim>\<open>Map\<close> is an association list in insertion order: \<^verbatim>\<open>set\<close> replaces the value
  of a key that is there and appends a new key.
\<close>

fun mapSet :: "'k \<Rightarrow> 'v \<Rightarrow> ('k \<times> 'v) list \<Rightarrow> ('k \<times> 'v) list" where
  "mapSet k v [] = [(k, v)]"
| "mapSet k v ((k', v') # m) = (if k = k' then (k, v) # m else (k', v') # mapSet k v m)"

definition mapHas :: "'k \<Rightarrow> ('k \<times> 'v) list \<Rightarrow> bool" where
  "mapHas k m = (k \<in> set (map fst m))"

text \<open>The title deduplication of \<^verbatim>\<open>triageAndRank\<close> (the set \<^verbatim>\<open>seenTitles\<close>).\<close>

fun dedupeTitles :: "candidate list \<Rightarrow> string list \<Rightarrow> candidate list" where
  "dedupeTitles [] seenTitles = []"
| "dedupeTitles (c # cs) seenTitles =
     (let titleKey = normalizedTitle c in
      if titleKey \<noteq> [] then
        (if titleKey \<in> set seenTitles then dedupeTitles cs seenTitles
         else c # dedupeTitles cs (seenTitles @ [titleKey]))
      else c # dedupeTitles cs seenTitles)"

text \<open>\<^verbatim>\<open>selectedCandidates\<close>: rank, deduplicate by title, truncate to \<^verbatim>\<open>maxCandidates\<close>.\<close>

definition selectedCandidates :: "nzb_result list \<Rightarrow> options \<Rightarrow> candidate list" where
  "selectedCandidates nzbResults opts =
     (let maxCands = max 1 (case maxCandidates opts of None \<Rightarrow> 25 | Some m \<Rightarrow> m);
          candidates = rankCandidates (buildCandidates nzbResults) (preferredSizeBytes opts)
                         (normalizeIndexerSet (preferredIndexerIds opts));
          uniqueCandidates = dedupeTitles candidates []
      in take (nat (min maxCands (int (length uniqueCandidates)))) uniqueCandidates)"

record download_result =
  payloads :: "(candidate \<times> string) list"
  failures :: "(string \<times> js_error) list"
  dl_timedOut :: bool

text \<open>
  The workers of \<^verbatim>\<open>downloadNzbs\<close> share the cursor, so the indices are taken in
  order, each by a worker that is still running; a worker that finds the budget
  exceeded sets \<^verbatim>\<open>timedOut\<close> and returns, the index it took is not fetched. \<open>workers\<close>
  counts the workers still running. An empty response is the failure
  \<^verbatim>\<open>Empty NZB payload\<close>.
\<close>

definition emptyPayloadError :: js_error where
  "emptyPayloadError = \<lparr>code = None, message = Some ''Empty NZB payload'', dropClient = False\<rparr>"

fun download_loop ::
  "runner_env \<Rightarrow> int \<Rightarrow> candidate list \<Rightarrow> nat \<Rightarrow> nat \<Rightarrow> download_result \<Rightarrow> download_result" where
  "download_loop env budget [] cursor workers acc = acc"
| "download_loop env budget (c # cs) cursor workers acc =
     (if workers = 0 then acc
      else if elapsedAtDispatch env cursor > budget then
        download_loop env budget cs (cursor + 1) (workers - 1) (acc\<lparr>dl_timedOut := True\<rparr>)
      else
        (case fetchNzb env (downloadUrl c) of
           Inr text \<Rightarrow>
             if text = [] then
               download_loop env budget cs (cursor + 1) workers
                 (acc\<lparr>failures := mapSet (downloadUrl c) emptyPayloadError (failures acc)\<rparr>)
             else
               download_loop env budget cs (cursor + 1) workers
                 (acc\<lparr>payloads := payloads acc @ [(c, text)]\<rparr>)
         | Inl err \<Rightarrow>
             download_loop env budget cs (cursor + 1) workers
               (acc\<lparr>failures := mapSet (downloadUrl c) err (failures acc)\<rparr>)))"

text \<open>
  \<^verbatim>\<open>downloadNzbs\<close>: the loop, then the payloads and the failures in the order in which
  their fetches completed.
\<close>

definition downloadNzbs :: "runner_env \<Rightarrow> candidate list \<Rightarrow> options \<Rightarrow> download_result" where
  "downloadNzbs env candidates opts =
     (let budget = (case timeBudgetMs opts of None \<Rightarrow> 12000 | Some b \<Rightarrow> b);
          concurrency = max 1 (min (case downloadConcurrency opts of None \<Rightarrow> 8 | Some n \<Rightarrow> n)
                                   (int (length candidates)));
          r = download_loop env budget candidates 0 (nat concurrency)
                \<lparr>payloads = [], failures = [], dl_timedOut = False\<rparr>
      in r\<lparr>payloads := jsSort (\<lambda>a b. completedAt env (downloadUrl (fst a))
                                       - completedAt env (downloadUrl (fst b))) (payloads r),
           failures := jsSort (\<lambda>a b. completedAt env (fst a) - completedAt env (fst b))
                         (failures r)\<rparr>)"

text \<open>\<^verbatim>\<open>summarizeDecision\<close>\<close>

definition summarizeDecision :: "nzb_decision \<Rightarrow> summary" where
  "summarizeDecision d =
     (let positiveFinding =
            (\<exists>f \<in> set (archiveFindings d).
               toLowerCase (f_status f) = ''rar-stored''
               \<or> toLowerCase (f_status f) = ''sevenzip-stored''
               \<or> toLowerCase (f_status f) = ''segment-ok'');
          st = (if decision d = ''accept'' \<and> blockers d = []
                then (if positiveFinding then ''verified'' else ''unverified'')
                else ''blocked'')
      in \<lparr>s_status = st, s_error = None, s_blockers = blockers d, s_warnings = warnings d,
          s_nzbIndex = Some (nzbIndex d), s_fileCount = Some (fileCount d),
          s_archiveFindings = archiveFindings d,
          s_title = None, s_normalizedTitle = None, s_indexerId = None, s_indexerName = None\<rparr>)"

text \<open>
  \<^verbatim>\<open>attachMetadata\<close>; \<^verbatim>\<open>candidateByUrl.get(url)\<close> is the last selected candidate with
  that URL. \<^verbatim>\<open>x || null\<close> keeps a truthy \<open>x\<close>.
\<close>

definition orNull :: "string option \<Rightarrow> string option" where
  "orNull s = (if truthy s then s else None)"

definition attachMetadata :: "candidate list \<Rightarrow> string \<Rightarrow> summary \<Rightarrow> summary" where
  "attachMetadata selected url s =
     (case find (\<lambda>c. downloadUrl c = url) (rev selected) of
        Some candidateInfo \<Rightarrow>
          s\<lparr>s_title := orNull (title candidateInfo),
            s_normalizedTitle := orNull (Some (normalizedTitle candidateInfo)),
            s_indexerId := orNull (indexerId candidateInfo),
            s_indexerName := orNull (indexerName candidateInfo)\<rparr>
      | None \<Rightarrow> s)"

definition plainSummary :: "string \<Rightarrow> string list \<Rightarrow> string list \<Rightarrow> string option \<Rightarrow> summary" where
  "plainSummary st bl wa er =
     \<lparr>s_status = st, s_error = er, s_blockers = bl, s_warnings = wa, s_nzbIndex = None,
      s_fileCount = None, s_archiveFindings = [], s_title = None, s_normalizedTitle = None,
      s_indexerId = None, s_indexerName = None\<rparr>"

text \<open>The loop over \<^verbatim>\<open>downloadResult.failures.entries()\<close>.\<close>

fun addFailures ::
  "candidate list \<Rightarrow> (string \<times> js_error) list \<Rightarrow> (string \<times> summary) list \<Rightarrow> (string \<times> summary) list" where
  "addFailures selected [] decisionMap = decisionMap"
| "addFailures selected ((url, err) # fs) decisionMap =
     addFailures selected fs
       (mapSet url
          (attachMetadata selected url
             (plainSummary ''fetch-error'' [''fetch-error''] []
                (Some (case message err of
                         Some m \<Rightarrow> if m = [] then ''Failed to fetch NZB payload'' else m
                       | None \<Rightarrow> ''Failed to fetch NZB payload''))))
          decisionMap)"

text \<open>
  \<^verbatim>\<open>summary.decisions.forEach((decision, index) => ...)\<close>: the decision at an index
  goes to the payload at that index; a decision without a payload is dropped.
\<close>

fun addDecisions ::
  "candidate list \<Rightarrow> nzb_decision list \<Rightarrow> (candidate \<times> string) list
     \<Rightarrow> (string \<times> summary) list \<Rightarrow> (string \<times> summary) list" where
  "addDecisions selected [] ps decisionMap = decisionMap"
| "addDecisions selected (d # ds) [] decisionMap = decisionMap"
| "addDecisions selected (d # ds) (payloadRef # ps) decisionMap =
     addDecisions selected ds ps
       (mapSet (downloadUrl (fst payloadRef))
          (attachMetadata selected (downloadUrl (fst payloadRef)) (summarizeDecision d))
          decisionMap)"

text \<open>
  The loops that fill in what is missing: \<^verbatim>\<open>if (!decisionMap.has(url)) decisionMap.set(url, ...)\<close>
  over a list of candidates, with the summary to set.
\<close>

fun addMissing ::
  "candidate list \<Rightarrow> summary \<Rightarrow> candidate list \<Rightarrow> (string \<times> summary) list \<Rightarrow> (string \<times> summary) list" where
  "addMissing selected s [] decisionMap = decisionMap"
| "addMissing selected s (c # cs) decisionMap =
     addMissing selected s cs
       (if mapHas (downloadUrl c) decisionMap then decisionMap
        else mapSet (downloadUrl c) (attachMetadata selected (downloadUrl c) s) decisionMap)"

record triage_output =
  decisions :: "(string \<times> summary) list"
  timedOut :: bool
  candidatesConsidered :: nat
  evaluatedCount :: nat
  fetchFailures :: nat

text \<open>
  \<^verbatim>\<open>triageAndRank\<close>. (\<^verbatim>\<open>elapsedMs\<close> and the analyzer's own summary are left out of the
  output.)
\<close>

definition triageAndRank :: "runner_env \<Rightarrow> nzb_result list \<Rightarrow> options \<Rightarrow> triage_output" where
  "triageAndRank env nzbResults opts =
     (let budget = (case timeBudgetMs opts of None \<Rightarrow> 12000 | Some b \<Rightarrow> b);
          selected = selectedCandidates nzbResults opts
      in
      if selected = [] then
        \<lparr>decisions = [], timedOut = False, candidatesConsidered = 0, evaluatedCount = 0,
         fetchFailures = 0\<rparr>
      else
        let downloadResult = downloadNzbs env selected opts;
            remainingBudget = budget - elapsedAfterDownloads env;
            decisionMap = addFailures selected (failures downloadResult) []
        in
        if payloads downloadResult = [] then
          \<lparr>decisions = addMissing selected
                          (plainSummary (if dl_timedOut downloadResult then ''pending'' else ''skipped'')
                             [] [] None)
                          selected decisionMap,
           timedOut = dl_timedOut downloadResult,
           candidatesConsidered = length selected,
           evaluatedCount = 0,
           fetchFailures = length (failures downloadResult)\<rparr>
        else
          let outcome = (if remainingBudget > 0
                         then Some (triageNzbs env (map snd (payloads downloadResult)))
                         else None);
              timedOut' = (case outcome of
                             None \<Rightarrow> True
                           | Some (Inl err) \<Rightarrow>
                               dl_timedOut downloadResult
                               \<or> code err = Some (CodeStr ''TRIAGE_TIMEOUT'')
                           | Some (Inr ds) \<Rightarrow> dl_timedOut downloadResult);
              decisionMap = (case outcome of
                               Some (Inr ds) \<Rightarrow>
                                 addDecisions selected ds (payloads downloadResult) decisionMap
                             | _ \<Rightarrow> decisionMap);
              decisionMap = (case outcome of
                               Some (Inl triageError) \<Rightarrow>
                                 addMissing selected
                                   (plainSummary ''error'' [''triage-error'']
                                      (case message triageError of
                                         Some m \<Rightarrow> if m = [] then [] else [m]
                                       | None \<Rightarrow> [])
                                      None)
                                   (map fst (payloads downloadResult)) decisionMap
                             | _ \<Rightarrow> decisionMap);
              decisionMap = addMissing selected
                              (plainSummary (if timedOut' then ''pending'' else ''skipped'')
                                 [] [] None)
                              selected decisionMap
          in
          \<lparr>decisions = decisionMap, timedOut = timedOut',
           candidatesConsidered = length selected,
           evaluatedCount = (case outcome of Some (Inr ds) \<Rightarrow> length ds | _ \<Rightarrow> 0),
           fetchFailures = length (failures downloadResult)\<rparr>)"

subsection \<open>The keys of the decisions map\<close>

text \<open>The keys of a map, in insertion order.\<close>

definition keysOf :: "('k \<times> 'v) list \<Rightarrow> 'k list" where
  "keysOf m = map fst m"

lemma keysOf_Nil: "keysOf [] = []"
  by (simp add: keysOf_def)

lemma keys_mapSet:
  "keysOf (mapSet k v m) = (if k \<in> set (keysOf m) then keysOf m else keysOf m @ [k])"
proof (induction m)
  case Nil
  then show ?case by (simp add: keysOf_def)
next
  case (Cons e m)
  obtain k' v' where e: "e = (k', v')" by (cases e)
  show ?case
  proof (cases "k = k'")
    case True
    then show ?thesis by (simp add: e keysOf_def)
  next
    case False
    with Cons show ?thesis by (simp add: e keysOf_def)
  qed
qed

lemma set_keys_mapSet: "set (keysOf (mapSet k v m)) = insert k (set (keysOf m))"
  by (auto simp: keys_mapSet)

lemma distinct_keys_mapSet: "distinct (keysOf m) \<Longrightarrow> distinct (keysOf (mapSet k v m))"
  by (simp add: keys_mapSet)

lemma addFailures_keys:
  "set (keysOf (addFailures sel fs m)) = set (keysOf m) \<union> set (map fst fs)
   \<and> (distinct (keysOf m) \<longrightarrow> distinct (keysOf (addFailures sel fs m)))"
proof (induction fs arbitrary: m)
  case Nil
  then show ?case by simp
next
  case (Cons f fs)
  obtain url err where f: "f = (url, err)" by (cases f)
  show ?case unfolding f addFailures.simps
    using Cons [of "mapSet url (attachMetadata sel url
             (plainSummary ''fetch-error'' [''fetch-error''] []
                (Some (case message err of
                         Some m \<Rightarrow> if m = [] then ''Failed to fetch NZB payload'' else m
                       | None \<Rightarrow> ''Failed to fetch NZB payload'')))) m"]
    by (auto simp: set_keys_mapSet distinct_keys_mapSet)
qed

lemma addDecisions_keys:
  "set (keysOf m) \<subseteq> set (keysOf (addDecisions sel ds ps m))
   \<and> set (keysOf (addDecisions sel ds ps m))
       \<subseteq> set (keysOf m) \<union> set (map (\<lambda>p. downloadUrl (fst p)) ps)
   \<and> (distinct (keysOf m) \<longrightarrow> distinct (keysOf (addDecisions sel ds ps m)))"
proof (induction sel ds ps m rule: addDecisions.induct)
  case (1 selected ps decisionMap)
  then show ?case by simp
next
  case (2 selected d ds decisionMap)
  then show ?case by simp
next
  case (3 selected d ds payloadRef ps decisionMap)
  define m' where "m' = mapSet (downloadUrl (fst payloadRef))
          (attachMetadata selected (downloadUrl (fst payloadRef)) (summarizeDecision d))
          decisionMap"
  have s: "set (keysOf m') = insert (downloadUrl (fst payloadRef)) (set (keysOf decisionMap))"
    by (simp add: m'_def set_keys_mapSet)
  have d: "distinct (keysOf decisionMap) \<Longrightarrow> distinct (keysOf m')"
    by (simp add: m'_def distinct_keys_mapSet)
  have e: "addDecisions selected (d # ds) (payloadRef # ps) decisionMap
      = addDecisions selected ds ps m'"
    by (simp add: m'_def)
  from 3 have ih: "set (keysOf m') \<subseteq> set (keysOf (addDecisions selected ds ps m'))"
    "set (keysOf (addDecisions selected ds ps m'))
       \<subseteq> set (keysOf m') \<union> set (map (\<lambda>p. downloadUrl (fst p)) ps)"
    "distinct (keysOf m') \<Longrightarrow> distinct (keysOf (addDecisions selected ds ps m'))"
    by (simp_all add: m'_def)
  show ?case unfolding e using ih s d by auto
qed

lemma addMissing_keys:
  "set (keysOf (addMissing sel s cs m)) = set (keysOf m) \<union> set (map downloadUrl cs)
   \<and> (distinct (keysOf m) \<longrightarrow> distinct (keysOf (addMissing sel s cs m)))"
proof (induction cs arbitrary: m)
  case Nil
  then show ?case by simp
next
  case (Cons c cs)
  show ?case
  proof (cases "mapHas (downloadUrl c) m")
    case True
    then show ?thesis using Cons [of m] by (auto simp: mapHas_def keysOf_def)
  next
    case False
    then show ?thesis
      using Cons [of "mapSet (downloadUrl c) (attachMetadata sel (downloadUrl c) s) m"]
      by (auto simp: set_keys_mapSet distinct_keys_mapSet)
  qed
qed

lemma download_loop_within:
  "set (map fst (payloads (download_loop env budget cs cursor workers acc)))
     \<subseteq> set (map fst (payloads acc)) \<union> set cs
   \<and> set (keysOf (failures (download_loop env budget cs cursor workers acc)))
     \<subseteq> set (keysOf (failures acc)) \<union> set (map downloadUrl cs)"
proof (induction cs arbitrary: cursor workers acc)
  case Nil
  then show ?case by simp
next
  case (Cons c cs)
  show ?case
  proof (cases "workers = 0")
    case True
    then show ?thesis by auto
  next
    case w: False
    show ?thesis
    proof (cases "elapsedAtDispatch env cursor > budget")
      case True
      then show ?thesis
        using w Cons [of "cursor + 1" "workers - 1" "acc\<lparr>dl_timedOut := True\<rparr>"]
        by auto
    next
      case t: False
      show ?thesis
      proof (cases "fetchNzb env (downloadUrl c)")
        case (Inl err)
        then show ?thesis
          using w t Cons [of "cursor + 1" workers
              "acc\<lparr>failures := mapSet (downloadUrl c) err (failures acc)\<rparr>"]
          by (auto simp: set_keys_mapSet)
      next
        case (Inr nzb)
        show ?thesis
        proof (cases "nzb = []")
          case True
          then show ?thesis
            using w t Inr Cons [of "cursor + 1" workers
                "acc\<lparr>failures := mapSet (downloadUrl c) emptyPayloadError (failures acc)\<rparr>"]
            by (auto simp: set_keys_mapSet)
        next
          case False
          then show ?thesis
            using w t Inr Cons [of "cursor + 1" workers
                "acc\<lparr>payloads := payloads acc @ [(c, nzb)]\<rparr>"]
            by auto
        qed
      qed
    qed
  qed
qed

lemma downloadNzbs_within:
  "set (map fst (payloads (downloadNzbs env cs opts))) \<subseteq> set cs
   \<and> set (keysOf (failures (downloadNzbs env cs opts))) \<subseteq> set (map downloadUrl cs)"
proof -
  define budget where "budget = (case timeBudgetMs opts of None \<Rightarrow> 12000 | Some b \<Rightarrow> b)"
  define k where "k = nat (max 1 (min (case downloadConcurrency opts of None \<Rightarrow> 8 | Some n \<Rightarrow> n)
                                   (int (length cs))))"
  define r where "r = download_loop env budget cs 0 k
                \<lparr>payloads = [], failures = [], dl_timedOut = False\<rparr>"
  have r: "set (map fst (payloads r)) \<subseteq> set cs
      \<and> set (keysOf (failures r)) \<subseteq> set (map downloadUrl cs)"
    unfolding r_def
    using download_loop_within [of env budget cs 0 k
        "\<lparr>payloads = [], failures = [], dl_timedOut = False\<rparr>"]
    by (simp add: keysOf_Nil)
  have "payloads (downloadNzbs env cs opts)
      = jsSort (\<lambda>a b. completedAt env (downloadUrl (fst a))
                       - completedAt env (downloadUrl (fst b))) (payloads r)"
    and "failures (downloadNzbs env cs opts)
      = jsSort (\<lambda>a b. completedAt env (fst a) - completedAt env (fst b)) (failures r)"
    by (simp_all add: downloadNzbs_def Let_def r_def k_def budget_def)
  with r show ?thesis by (simp add: set_jsSort keysOf_def)
qed

lemma triageAndRank_keys:
  "distinct (keysOf (decisions (triageAndRank env nzbResults opts)))
   \<and> set (keysOf (decisions (triageAndRank env nzbResults opts)))
       = set (map downloadUrl (selectedCandidates nzbResults opts))"
proof -
  define sel where "sel = selectedCandidates nzbResults opts"
  define dr where "dr = downloadNzbs env sel opts"
  define m0 where "m0 = addFailures sel (failures dr) []"
  define U where "U = set (map downloadUrl sel)"
  define good where "good = (\<lambda>m :: (string \<times> summary) list. distinct (keysOf m) \<and> set (keysOf m) \<subseteq> U)"
  define full where "full = (\<lambda>m :: (string \<times> summary) list. distinct (keysOf m) \<and> set (keysOf m) = U)"
  have within: "set (map fst (payloads dr)) \<subseteq> set sel"
    "set (keysOf (failures dr)) \<subseteq> U"
    using downloadNzbs_within [of env sel opts] by (simp_all add: dr_def U_def)
  then have purl: "set (map (\<lambda>p. downloadUrl (fst p)) (payloads dr)) \<subseteq> U"
    by (auto simp: U_def)
  have m0: "good m0"
    using addFailures_keys [of sel "failures dr" "[]"] within
    by (simp add: m0_def good_def keysOf_def)
  have fill: "\<And>s m. good m \<Longrightarrow> full (addMissing sel s sel m)"
    using addMissing_keys unfolding good_def full_def U_def by blast
  have dec: "\<And>ds. good (addDecisions sel ds (payloads dr) m0)"
    using addDecisions_keys [of m0 sel _ "payloads dr"] m0 purl unfolding good_def by blast
  have err: "\<And>s. good (addMissing sel s (map fst (payloads dr)) m0)"
  proof -
    fix s
    have "set (map downloadUrl (map fst (payloads dr))) \<subseteq> U"
      using purl by simp
    then show "good (addMissing sel s (map fst (payloads dr)) m0)"
      using addMissing_keys [of sel s "map fst (payloads dr)" m0] m0 unfolding good_def by blast
  qed
  have "full (decisions (triageAndRank env nzbResults opts))"
  proof (cases "sel = []")
    case True
    then show ?thesis
      by (simp add: triageAndRank_def Let_def sel_def [symmetric] full_def U_def keysOf_Nil)
  next
    case ne: False
    show ?thesis
    proof (cases "payloads dr = []")
      case True
      then show ?thesis
        using ne fill [OF m0]
        by (simp add: triageAndRank_def Let_def sel_def [symmetric] dr_def [symmetric]
            m0_def [symmetric])
    next
      case pn: False
      show ?thesis
      proof (cases "0 < (case timeBudgetMs opts of None \<Rightarrow> 12000 | Some b \<Rightarrow> b)
                        - elapsedAfterDownloads env")
        case False
        then show ?thesis
          using ne pn fill [OF m0]
          by (simp add: triageAndRank_def Let_def sel_def [symmetric] dr_def [symmetric]
              m0_def [symmetric])
      next
        case True
        show ?thesis
        proof (cases "triageNzbs env (map snd (payloads dr))")
          case (Inl e)
          then show ?thesis
            using ne pn True fill [OF err]
            by (simp add: triageAndRank_def Let_def sel_def [symmetric] dr_def [symmetric]
                m0_def [symmetric])
        next
          case (Inr ds)
          then show ?thesis
            using ne pn True fill [OF dec]
            by (simp add: triageAndRank_def Let_def sel_def [symmetric] dr_def [symmetric]
                m0_def [symmetric])
        qed
      qed
    qed
  qed
  then show ?thesis by (simp add: full_def U_def sel_def)
qed

lemma buildCandidates_loop_urls:
  assumes "map downloadUrl cands = seen" "distinct seen"
  shows "distinct (map downloadUrl (buildCandidates_loop rs i seen cands))
     \<and> set (map downloadUrl (buildCandidates_loop rs i seen cands))
         = set seen \<union> {u. u \<noteq> [] \<and> Some u \<in> set (map res_downloadUrl rs)}"
  using assms
proof (induction rs arbitrary: i seen cands)
  case Nil
  then show ?case by auto
next
  case (Cons r rs)
  show ?case
  proof (cases "res_downloadUrl r")
    case None
    with Cons.IH [OF Cons.prems, of "i + 1"] show ?thesis by auto
  next
    case (Some url)
    show ?thesis
    proof (cases "url = [] \<or> url \<in> set seen")
      case True
      with Some Cons.IH [OF Cons.prems, of "i + 1"] show ?thesis by auto
    next
      case False
      define c where "c = \<lparr>result = r, index_in = i,
                    size_bytes = (case res_size r of None \<Rightarrow> 0 | Some n \<Rightarrow> n),
                    indexerId = res_indexerId r,
                    indexerName = res_indexer r,
                    downloadUrl = url,
                    title = res_title r,
                    normalizedTitle = normalizeTitle (res_title r)\<rparr>"
      have u: "downloadUrl c = url" by (simp add: c_def)
      have e: "buildCandidates_loop (r # rs) i seen cands
          = buildCandidates_loop rs (i + 1) (seen @ [url]) (cands @ [c])"
        using Some False by (simp add: c_def)
      have "map downloadUrl (cands @ [c]) = seen @ [url]" "distinct (seen @ [url])"
        using Cons.prems False u by simp_all
      from Cons.IH [OF this, of "i + 1"] show ?thesis
        unfolding e using Some False by auto
    qed
  qed
qed

lemma buildCandidates_urls:
  "distinct (map downloadUrl (buildCandidates rs))
   \<and> set (map downloadUrl (buildCandidates rs))
       = {u. u \<noteq> [] \<and> Some u \<in> set (map res_downloadUrl rs)}"
  using buildCandidates_loop_urls [of "[]" "[]" rs 0] by (simp add: buildCandidates_def)

lemma dedupeTitles_sub:
  "set (dedupeTitles cs seen) \<subseteq> set cs
   \<and> (distinct (map downloadUrl cs) \<longrightarrow> distinct (map downloadUrl (dedupeTitles cs seen)))"
proof (induction cs arbitrary: seen)
  case Nil
  then show ?case by simp
next
  case (Cons c cs)
  have a: "\<And>s. set (dedupeTitles cs s) \<subseteq> set cs" using Cons by blast
  have b: "\<And>s. distinct (map downloadUrl cs) \<Longrightarrow> distinct (map downloadUrl (dedupeTitles cs s))"
    using Cons by blast
  have c: "\<And>s. downloadUrl c \<notin> set (map downloadUrl cs)
      \<Longrightarrow> downloadUrl c \<notin> set (map downloadUrl (dedupeTitles cs s))"
    using a by auto
  show ?case using a b c by (auto simp: Let_def)
qed

lemma selectedCandidates_urls:
  "distinct (map downloadUrl (selectedCandidates rs opts))
   \<and> set (map downloadUrl (selectedCandidates rs opts))
       \<subseteq> {u. u \<noteq> [] \<and> Some u \<in> set (map res_downloadUrl rs)}"
proof -
  define ranked where "ranked = rankCandidates (buildCandidates rs) (preferredSizeBytes opts)
                         (normalizeIndexerSet (preferredIndexerIds opts))"
  define uniq where "uniq = dedupeTitles ranked []"
  have "mset (map downloadUrl ranked) = mset (map downloadUrl (buildCandidates rs))"
    by (simp add: ranked_def mset_rankCandidates)
  then have d: "distinct (map downloadUrl ranked)"
    using buildCandidates_urls [of rs] mset_eq_imp_distinct_iff by blast
  have s: "set ranked = set (buildCandidates rs)" by (simp add: ranked_def set_rankCandidates)
  have du: "distinct (map downloadUrl uniq)" and su: "set uniq \<subseteq> set ranked"
    using dedupeTitles_sub [of ranked "[]"] d by (simp_all add: uniq_def)
  define n where "n = nat (min (max 1 (case maxCandidates opts of None \<Rightarrow> 25 | Some m \<Rightarrow> m))
                             (int (length uniq)))"
  have n: "selectedCandidates rs opts = take n uniq"
    by (simp add: selectedCandidates_def Let_def ranked_def uniq_def n_def)
  have "distinct (map downloadUrl (take n uniq))" using du by (simp add: take_map [symmetric])
  moreover have "set (take n uniq) \<subseteq> set (buildCandidates rs)"
    using su s set_take_subset [of n uniq] by blast
  then have "set (map downloadUrl (take n uniq)) \<subseteq> set (map downloadUrl (buildCandidates rs))"
    by auto
  ultimately show ?thesis using n buildCandidates_urls [of rs] by simp
qed

text \<open>
  C2 (as amended). For every run of \<^verbatim>\<open>triageAndRank\<close>, whatever the fetches and the
  analyzer do: the keys of the returned decisions map are pairwise different, and they
  are exactly the URLs of the selected candidates, that is, of the candidates that are
  left after the deduplication by URL, the ranking, the deduplication by normalized
  title and the truncation to \<^verbatim>\<open>maxCandidates\<close>; these are URLs of the input, each
  selected once.
\<close>

theorem triageAndRank_decision_keys:
  "distinct (keysOf (decisions (triageAndRank env nzbResults opts)))
   \<and> set (keysOf (decisions (triageAndRank env nzbResults opts)))
       = set (map downloadUrl (selectedCandidates nzbResults opts))
   \<and> distinct (map downloadUrl (selectedCandidates nzbResults opts))
   \<and> set (map downloadUrl (selectedCandidates nzbResults opts))
       \<subseteq> {u. u \<noteq> [] \<and> Some u \<in> set (map res_downloadUrl nzbResults)}"
  using triageAndRank_keys [of env nzbResults opts] selectedCandidates_urls [of nzbResults opts]
  by blast

text \<open>
  A world in which every fetch gives a payload at once and the analyzer accepts every
  payload, and the default options.
\<close>

definition sampleEnv :: runner_env where
  "sampleEnv =
     \<lparr>fetchNzb = (\<lambda>url. Inr ''<nzb/>''),
      elapsedAtDispatch = (\<lambda>i. 0),
      completedAt = (\<lambda>url. 0),
      elapsedAfterDownloads = 100,
      triageNzbs = (\<lambda>ps. Inr (map (\<lambda>p. \<lparr>decision = ''accept'', blockers = [], warnings = [],
                                          fileCount = 1, nzbTitle = None, nzbIndex = 0,
                                          archiveFindings = []\<rparr>) ps))\<rparr>"

definition defaultOptions :: options where
  "defaultOptions = \<lparr>timeBudgetMs = None, maxCandidates = None, downloadConcurrency = None,
                     preferredSizeBytes = None, preferredIndexerIds = None\<rparr>"

text \<open>Two results with different URLs whose titles normalize to the same string.\<close>

definition sameTitleResults :: "nzb_result list" where
  "sameTitleResults =
     [\<lparr>res_downloadUrl = Some ''http://a/1'', res_title = Some ''Movie'',
       res_indexerId = None, res_indexer = None, res_size = Some 2000\<rparr>,
      \<lparr>res_downloadUrl = Some ''http://a/2'', res_title = Some '' movie '',
       res_indexerId = None, res_indexer = None, res_size = Some 1000\<rparr>]"

text \<open>
  C2 as stated fails: the URL \<open>http://a/2\<close> is present in the input and is no key of
  the decisions map, because its title repeats the title of a candidate ranked before it.
\<close>

theorem triageAndRank_drops_same_title:
  "Some ''http://a/2'' \<in> set (map res_downloadUrl sameTitleResults)
   \<and> keysOf (decisions (triageAndRank sampleEnv sameTitleResults defaultOptions)) = [''http://a/1'']"
  by code_simp

text \<open>The amended C2 at the three sample results: every one of them is selected and decided.\<close>

theorem triageAndRank_decision_keys_witness:
  "keysOf (decisions (triageAndRank sampleEnv sampleResults defaultOptions))
     = [''http://a/3'', ''http://a/2'', ''http://a/1'']
   \<and> set (map downloadUrl (selectedCandidates sampleResults defaultOptions))
     = set [''http://a/3'', ''http://a/2'', ''http://a/1'']"
proof -
  have k: "keysOf (decisions (triageAndRank sampleEnv sampleResults defaultOptions))
     = [''http://a/3'', ''http://a/2'', ''http://a/1'']"
    by code_simp
  from triageAndRank_decision_keys [of sampleEnv sampleResults defaultOptions] k
  show ?thesis by simp
qed

section \<open>NNTP operations on a client\<close>

text \<open>\<^verbatim>\<open>String.prototype.includes\<close>\<close>

fun includesStr :: "string \<Rightarrow> string \<Rightarrow> bool" where
  "includesStr [] sub = (sub = [])"
| "includesStr (c # cs) sub = (startsWith (c # cs) sub \<or> includesStr cs sub)"

text \<open>
  What the world does with one \<^verbatim>\<open>client.stat\<close> call: the millisecond (after the call)
  at which the callback is called, \<open>None\<close> if it never is; the error it is called with,
  \<open>None\<close> for success; and, should the callback fall on the very millisecond of the
  timer, which of the two the event loop runs first.
\<close>

record stat_world =
  callbackAt :: "nat option"
  callbackErr :: "js_error option"
  timerFirstOnTie :: bool

definition STAT_TIMEOUT_MS :: nat where
  "STAT_TIMEOUT_MS = 5000"

definition transportCodes :: "js_code list" where
  "transportCodes = [CodeStr ''ETIMEDOUT'', CodeStr ''ECONNRESET'', CodeStr ''ECONNABORTED'',
                     CodeStr ''EPIPE'']"

text \<open>\<^verbatim>\<open>['ETIMEDOUT', 'ECONNRESET', 'ECONNABORTED', 'EPIPE'].includes(err.code)\<close>\<close>

definition isTransportCode :: "js_code option \<Rightarrow> bool" where
  "isTransportCode c = (case c of None \<Rightarrow> False | Some k \<Rightarrow> k \<in> set transportCodes)"

text \<open>
  Whether the timer of \<^verbatim>\<open>statSegmentWithClient\<close> fires before the callback: the flag
  \<^verbatim>\<open>completed\<close> makes the first of the two the only one that settles the promise.
\<close>

definition timerWins :: "stat_world \<Rightarrow> bool" where
  "timerWins w =
     (case callbackAt w of
        None \<Rightarrow> True
      | Some t \<Rightarrow> STAT_TIMEOUT_MS < t \<or> (t = STAT_TIMEOUT_MS \<and> timerFirstOnTie w))"

text \<open>
  \<^verbatim>\<open>statSegmentWithClient(client, segmentId)\<close>: \<open>Inl\<close> is the error the promise rejects
  with, \<open>Inr ()\<close> is \<^verbatim>\<open>resolve()\<close>.
\<close>

definition statSegmentWithClient :: "stat_world \<Rightarrow> js_error + unit" where
  "statSegmentWithClient w =
     (if timerWins w then
        Inl \<lparr>code = Some (CodeStr ''STAT_TIMEOUT''), message = Some ''STAT timed out after 5s'',
             dropClient = True\<rparr>
      else
        (case callbackErr w of
           None \<Rightarrow> Inr ()
         | Some err \<Rightarrow>
             (let codeFromMessage =
                    (if truthy (message err) \<and> includesStr (the (message err)) ''430''
                     then Some (CodeStr ''STAT_MISSING'') else code err)
              in Inl \<lparr>code = (case code err of Some c \<Rightarrow> Some c | None \<Rightarrow> codeFromMessage),
                      message = (if truthy (message err) then message err else Some ''STAT failed''),
                      dropClient = isTransportCode (code err)\<rparr>)))"

text \<open>
  \<^verbatim>\<open>fetchSegmentBodyWithClient\<close>, from what the callback of \<^verbatim>\<open>client.body\<close> is
  called with: an error or none, and a body buffer or none.
\<close>

definition fetchSegmentBodyWithClient :: "js_error option \<times> byte list option \<Rightarrow> js_error + byte list" where
  "fetchSegmentBodyWithClient cb =
     (case fst cb of
        Some err \<Rightarrow>
          (let c = (case code err of Some c \<Rightarrow> c | None \<Rightarrow> CodeStr ''BODY_ERROR'');
               c = (if c = CodeNum 430 then CodeStr ''BODY_MISSING'' else c)
           in Inl \<lparr>code = Some c,
                   message = (if truthy (message err) then message err else Some ''BODY failed''),
                   dropClient = isTransportCode (code err)\<rparr>)
      | None \<Rightarrow>
          (case snd cb of
             None \<Rightarrow> Inl \<lparr>code = Some (CodeStr ''BODY_ERROR''),
                          message = Some ''Empty BODY response'', dropClient = False\<rparr>
           | Some bodyBuffer \<Rightarrow>
               if bodyBuffer = [] then
                 Inl \<lparr>code = Some (CodeStr ''BODY_ERROR''),
                      message = Some ''Empty BODY response'', dropClient = False\<rparr>
               else Inr bodyBuffer))"

subsection \<open>Borrowing a client\<close>

text \<open>
  \<^verbatim>\<open>runWithClient(pool, handler)\<close>. \<open>poolPresent\<close> is \<^verbatim>\<open>pool\<close> being truthy;
  \<open>acquired\<close> is what \<^verbatim>\<open>await pool.acquire()\<close> gives: a rejection, \<^verbatim>\<open>null\<close> or a client
  (clients are numbered). The result is the value or error of the call and the list of
  the \<^verbatim>\<open>pool.release(client, {drop})\<close> calls it made.
\<close>

definition plainError :: "string \<Rightarrow> js_error" where
  "plainError m = \<lparr>code = None, message = Some m, dropClient = False\<rparr>"

definition runWithClient ::
  "bool \<Rightarrow> js_error + nat option \<Rightarrow> (nat \<Rightarrow> js_error + 'a) \<Rightarrow> (js_error + 'a) \<times> (nat \<times> bool) list" where
  "runWithClient poolPresent acquired handler =
     (if \<not> poolPresent then (Inl (plainError ''NNTP pool unavailable''), [])
      else
        (case acquired of
           Inl rejection \<Rightarrow> (Inl rejection, [])
         | Inr None \<Rightarrow> (Inl (plainError ''NNTP client unavailable''), [])
         | Inr (Some client) \<Rightarrow>
             (let dropClient0 = False;
                  outcome = handler client;
                  dropClient1 = (case outcome of
                                   Inl err \<Rightarrow> if dropClient err then True else dropClient0
                                 | Inr v \<Rightarrow> dropClient0)
              in (outcome, [(client, dropClient1)]))))"

subsection \<open>Properties\<close>




text \<open>
  C10. A call of \<^verbatim>\<open>runWithClient\<close> that acquires a client releases that client
  exactly once, with \<open>drop\<close> set exactly when the handler threw an error whose
  \<open>dropClient\<close> is truthy, and returns or throws what the handler returned or threw.
\<close>

theorem runWithClient_release:
  "acquired = Inr (Some client) \<Longrightarrow>
   runWithClient True acquired handler
     = (handler client,
        [(client, case handler client of Inl err \<Rightarrow> dropClient err | Inr v \<Rightarrow> False)])"
  by (cases "handler client") (simp_all add: runWithClient_def Let_def)

text \<open>
  C10 at a handler that runs the STAT of a world in which the connection was reset:
  the client 3 is released once, to be dropped, and the error is passed on.
\<close>

theorem runWithClient_release_witness:
  "runWithClient True (Inr (Some 3))
     (\<lambda>client. statSegmentWithClient
        \<lparr>callbackAt = Some 12,
         callbackErr = Some \<lparr>code = Some (CodeStr ''ECONNRESET''), message = Some ''reset'',
                             dropClient = False\<rparr>,
         timerFirstOnTie = False\<rparr>)
   = (Inl \<lparr>code = Some (CodeStr ''ECONNRESET''), message = Some ''reset'', dropClient = True\<rparr>,
      [(3, True)])"
proof -
  let ?h = "\<lambda>client :: nat. statSegmentWithClient
        \<lparr>callbackAt = Some 12,
         callbackErr = Some \<lparr>code = Some (CodeStr ''ECONNRESET''), message = Some ''reset'',
                             dropClient = False\<rparr>,
         timerFirstOnTie = False\<rparr>"
  have h: "?h 3 = Inl \<lparr>code = Some (CodeStr ''ECONNRESET''), message = Some ''reset'',
                       dropClient = True\<rparr>"
    by code_simp
  from runWithClient_release [of "Inr (Some 3)" 3 ?h] h show ?thesis by simp
qed

section \<open>The NNTP pool\<close>

text \<open>
  The state that the closures of \<^verbatim>\<open>createNntpPool\<close> share. Clients and waiters
  (the \<^verbatim>\<open>resolve\<close> functions of pending \<^verbatim>\<open>acquire\<close> promises) are numbered.
  \<open>noopTimers\<close> holds the clients with an armed keep-alive timer; \<open>pendingReplacements\<close>
  counts the replacements that were scheduled and have not arrived yet (a replacement
  may arrive at any later time, also after \<^verbatim>\<open>close\<close>);
  \<open>resolved\<close> records which waiter was resolved with which client (\<open>None\<close> is \<^verbatim>\<open>null\<close>)
  and \<open>rejected\<close> the acquisitions rejected because the pool was closing;
  \<open>closedClients\<close> records the \<^verbatim>\<open>closeNntpClient\<close> calls.
\<close>

record pool =
  idle :: "nat list"
  waiters :: "nat list"
  allClients :: "nat list"
  closing :: bool
  noopTimers :: "nat list"
  pendingReplacements :: nat
  resolved :: "(nat \<times> nat option) list"
  rejected :: "nat list"
  closedClients :: "nat list"

text \<open>The pool right after \<^verbatim>\<open>createNntpPool\<close> connected its initial clients.\<close>

definition createNntpPool :: "nat list \<Rightarrow> pool" where
  "createNntpPool initialClients =
     \<lparr>idle = initialClients, waiters = [], allClients = remdups initialClients,
      closing = False, noopTimers = [], pendingReplacements = 0, resolved = [],
      rejected = [], closedClients = []\<rparr>"

definition cancelKeepAlive :: "nat \<Rightarrow> pool \<Rightarrow> pool" where
  "cancelKeepAlive client p = p\<lparr>noopTimers := removeAll client (noopTimers p)\<rparr>"

text \<open>
  \<^verbatim>\<open>scheduleKeepAlive(client)\<close>; \<open>fresh\<close> is \<^verbatim>\<open>isTriageActivityFresh()\<close> at the call.
\<close>

definition scheduleKeepAlive :: "bool \<Rightarrow> nat \<Rightarrow> pool \<Rightarrow> pool" where
  "scheduleKeepAlive fresh client p =
     (if closing p \<or> client \<in> set (noopTimers p) then p
      else if \<not> fresh then p
      else p\<lparr>noopTimers := noopTimers p @ [client]\<rparr>)"

text \<open>
  \<^verbatim>\<open>scheduleReplacement(client)\<close>: the client leaves \<^verbatim>\<open>allClients\<close> and is closed, and
  \<^verbatim>\<open>attemptReplacement\<close> starts creating a new client unless the pool is closing.
\<close>

definition scheduleReplacement :: "nat \<Rightarrow> pool \<Rightarrow> pool" where
  "scheduleReplacement client p =
     p\<lparr>allClients := removeAll client (allClients p),
       closedClients := closedClients p @ [client],
       pendingReplacements := (if closing p then pendingReplacements p
                               else pendingReplacements p + 1)\<rparr>"

text \<open>
  The continuation of \<^verbatim>\<open>attemptReplacement\<close> when \<^verbatim>\<open>createNntpClient\<close> has resolved
  with the client \<open>replacement\<close>. It does not look at \<^verbatim>\<open>closing\<close>.
\<close>

definition replacementArrives :: "nat \<Rightarrow> pool \<Rightarrow> pool" where
  "replacementArrives replacement p =
     (if pendingReplacements p = 0 then p
      else
        let p = p\<lparr>pendingReplacements := pendingReplacements p - 1,
                  allClients := (if replacement \<in> set (allClients p) then allClients p
                                 else allClients p @ [replacement])\<rparr>
        in if waiters p \<noteq> [] then
             p\<lparr>waiters := tl (waiters p),
               resolved := resolved p @ [(hd (waiters p), Some replacement)]\<rparr>
           else p\<lparr>idle := idle p @ [replacement]\<rparr>)"

text \<open>\<^verbatim>\<open>releaseClient(client, drop)\<close>; \<open>fresh\<close> is \<^verbatim>\<open>isTriageActivityFresh()\<close> at the call.\<close>

definition releaseClient :: "bool \<Rightarrow> nat \<Rightarrow> bool \<Rightarrow> pool \<Rightarrow> pool" where
  "releaseClient fresh client dropFlag p =
     (if dropFlag then scheduleReplacement client (cancelKeepAlive client p)
      else if waiters p \<noteq> [] then
        p\<lparr>waiters := tl (waiters p), resolved := resolved p @ [(hd (waiters p), Some client)]\<rparr>
      else scheduleKeepAlive fresh client (p\<lparr>idle := idle p @ [client]\<rparr>))"

text \<open>\<^verbatim>\<open>acquireClient()\<close>, for the waiter \<open>w\<close>; \<^verbatim>\<open>idle.pop()\<close> takes the last idle client.\<close>

definition acquireClient :: "nat \<Rightarrow> pool \<Rightarrow> pool" where
  "acquireClient w p =
     (if closing p then p\<lparr>rejected := rejected p @ [w]\<rparr>
      else if idle p \<noteq> [] then
        (let client = last (idle p);
             p = cancelKeepAlive client (p\<lparr>idle := butlast (idle p)\<rparr>)
         in p\<lparr>resolved := resolved p @ [(w, Some client)]\<rparr>)
      else p\<lparr>waiters := waiters p @ [w]\<rparr>)"

text \<open>
  The keep-alive timer of a client: it fires (the timer entry is deleted; the probe is
  sent if triage activity is fresh), and later the probe succeeds or fails. On failure
  the client is taken out of \<^verbatim>\<open>idle\<close> if it is there, and replaced.
\<close>

definition keepAliveFired :: "nat \<Rightarrow> pool \<Rightarrow> pool" where
  "keepAliveFired client p = p\<lparr>noopTimers := removeAll client (noopTimers p)\<rparr>"

definition keepAliveSucceeded :: "bool \<Rightarrow> nat \<Rightarrow> pool \<Rightarrow> pool" where
  "keepAliveSucceeded fresh client p =
     (if \<not> closing p \<and> client \<in> set (idle p) \<and> fresh then scheduleKeepAlive fresh client p
      else p)"

text \<open>\<^verbatim>\<open>idle.splice(idle.indexOf(client), 1)\<close> removes the first occurrence.\<close>

definition keepAliveFailed :: "nat \<Rightarrow> pool \<Rightarrow> pool" where
  "keepAliveFailed client p = scheduleReplacement client (p\<lparr>idle := remove1 client (idle p)\<rparr>)"

text \<open>
  One tick of the \<^verbatim>\<open>keepAliveMs\<close> interval: \<open>fresh\<close> is \<^verbatim>\<open>isTriageActivityFresh()\<close>,
  \<open>recentlyUsed\<close> is \<^verbatim>\<open>Date.now() - lastUsed < keepAliveMs\<close>.
\<close>

definition keepAliveTick :: "bool \<Rightarrow> bool \<Rightarrow> pool \<Rightarrow> pool" where
  "keepAliveTick fresh recentlyUsed p =
     (if closing p then p
      else if \<not> fresh then p
      else if recentlyUsed then p
      else if waiters p \<noteq> [] then p
      else if idle p = [] then p
      else scheduleReplacement (last (idle p)) (p\<lparr>idle := butlast (idle p)\<rparr>))"

text \<open>\<^verbatim>\<open>close()\<close>: every waiter is resolved with \<^verbatim>\<open>null\<close>, every client is closed.\<close>

definition closePool :: "pool \<Rightarrow> pool" where
  "closePool p =
     p\<lparr>closing := True, noopTimers := [], allClients := [], idle := [], waiters := [],
       resolved := resolved p @ map (\<lambda>w. (w, None)) (waiters p),
       closedClients := closedClients p @ allClients p\<rparr>"

text \<open>What can happen to a pool, and a run of the pool through a list of events.\<close>

datatype pool_event =
    Acquire nat
  | Release bool nat bool
  | ReplacementArrives nat
  | KeepAliveFired nat
  | KeepAliveSucceeded bool nat
  | KeepAliveFailed nat
  | KeepAliveTick bool bool
  | Close

fun poolStep :: "pool_event \<Rightarrow> pool \<Rightarrow> pool" where
  "poolStep (Acquire w) p = acquireClient w p"
| "poolStep (Release fresh client dropFlag) p = releaseClient fresh client dropFlag p"
| "poolStep (ReplacementArrives c) p = replacementArrives c p"
| "poolStep (KeepAliveFired c) p = keepAliveFired c p"
| "poolStep (KeepAliveSucceeded fresh c) p = keepAliveSucceeded fresh c p"
| "poolStep (KeepAliveFailed c) p = keepAliveFailed c p"
| "poolStep (KeepAliveTick fresh recentlyUsed) p = keepAliveTick fresh recentlyUsed p"
| "poolStep Close p = closePool p"

definition poolRun :: "pool_event list \<Rightarrow> pool \<Rightarrow> pool" where
  "poolRun events p = fold poolStep events p"

subsection \<open>The invariant\<close>

definition waitersImplyNoIdle :: "pool \<Rightarrow> bool" where
  "waitersImplyNoIdle p = (waiters p \<noteq> [] \<longrightarrow> idle p = [])"

lemma waitersImplyNoIdle_create: "waitersImplyNoIdle (createNntpPool cs)"
  by (simp add: waitersImplyNoIdle_def createNntpPool_def)

lemma waitersImplyNoIdle_step:
  assumes "waitersImplyNoIdle p" shows "waitersImplyNoIdle (poolStep e p)"
proof (cases e)
  case (Acquire w)
  with assms show ?thesis
    by (auto simp: waitersImplyNoIdle_def acquireClient_def cancelKeepAlive_def Let_def)
next
  case (Release fresh client dropFlag)
  with assms show ?thesis
    by (auto simp: waitersImplyNoIdle_def releaseClient_def cancelKeepAlive_def
        scheduleReplacement_def scheduleKeepAlive_def)
next
  case (ReplacementArrives c)
  with assms show ?thesis
    by (auto simp: waitersImplyNoIdle_def replacementArrives_def Let_def)
next
  case (KeepAliveFired c)
  with assms show ?thesis by (auto simp: waitersImplyNoIdle_def keepAliveFired_def)
next
  case (KeepAliveSucceeded fresh c)
  with assms show ?thesis
    by (auto simp: waitersImplyNoIdle_def keepAliveSucceeded_def scheduleKeepAlive_def)
next
  case (KeepAliveFailed c)
  with assms show ?thesis
    by (auto simp: waitersImplyNoIdle_def keepAliveFailed_def scheduleReplacement_def)
next
  case (KeepAliveTick fresh recentlyUsed)
  with assms show ?thesis
    by (auto simp: waitersImplyNoIdle_def keepAliveTick_def scheduleReplacement_def)
next
  case Close
  with assms show ?thesis by (auto simp: waitersImplyNoIdle_def closePool_def)
qed

lemma waitersImplyNoIdle_run:
  "waitersImplyNoIdle p \<Longrightarrow> waitersImplyNoIdle (poolRun events p)"
  unfolding poolRun_def
  by (induction events arbitrary: p) (simp_all add: waitersImplyNoIdle_step)

text \<open>
  C9. In every state the pool reaches from its creation through any sequence of
  acquisitions, releases, arrivals of replacements, keep-alive events and closes: if the
  waiters queue is not empty, the idle list is empty.
\<close>

theorem pool_waiters_imply_no_idle:
  "waiters (poolRun events (createNntpPool initialClients)) \<noteq> []
     \<longrightarrow> idle (poolRun events (createNntpPool initialClients)) = []"
  using waitersImplyNoIdle_run [OF waitersImplyNoIdle_create, of events initialClients]
  by (simp add: waitersImplyNoIdle_def)

text \<open>
  C9 at a pool of one client after two acquisitions, the release of the client to be
  dropped and a third acquisition: waiters 2 and 3 wait and nothing is idle.
\<close>

theorem pool_waiters_imply_no_idle_witness:
  "waiters (poolRun [Acquire 1, Acquire 2, Release True 7 True, Acquire 3] (createNntpPool [7]))
     = [2, 3]
   \<and> idle (poolRun [Acquire 1, Acquire 2, Release True 7 True, Acquire 3] (createNntpPool [7]))
     = []"
proof -
  have w: "waiters (poolRun [Acquire 1, Acquire 2, Release True 7 True, Acquire 3]
                      (createNntpPool [7])) = [2, 3]"
    by code_simp
  then have "waiters (poolRun [Acquire 1, Acquire 2, Release True 7 True, Acquire 3]
                      (createNntpPool [7])) \<noteq> []"
    by simp
  with pool_waiters_imply_no_idle
    [of "[Acquire 1, Acquire 2, Release True 7 True, Acquire 3]" "[7]"] w
  show ?thesis by blast
qed

section \<open>The triage analyzer\<close>

subsection \<open>Files, archive candidates, sampling\<close>

record segment =
  seg_number :: int
  seg_bytes :: int
  seg_id :: string

text \<open>
  A file record as \<^verbatim>\<open>extractFiles\<close> builds it. \<open>file_ix\<close> is its position in the
  list: two records of the analyzer are the same object exactly when they stand at the
  same position, and the analyzer compares archives by identity.
\<close>

record nzb_file =
  file_ix :: nat
  subject :: string
  filename :: "string option"
  extension :: "string option"
  segments :: "segment list"

text \<open>
  \<^verbatim>\<open>getExtension(filename)\<close>: from the last dot on, lower-cased; \<open>None\<close> is
  \<^verbatim>\<open>undefined\<close>.
\<close>

definition getExtension :: "string option \<Rightarrow> string option" where
  "getExtension name =
     (case name of
        None \<Rightarrow> None
      | Some f \<Rightarrow>
          if f = [] then None
          else if CHR ''.'' \<notin> set f then None
          else Some (toLowerCase (CHR ''.'' # rev (takeWhile (\<lambda>c. c \<noteq> CHR ''.'') (rev f)))))"

text \<open>
  \<^verbatim>\<open>extractFiles\<close>, from the file nodes of the parsed XML, each given by its subject,
  by what \<^verbatim>\<open>guessFilenameFromSubject\<close> makes of the subject (the regular expressions
  of that function are not modelled) and by its normalized segments.
\<close>

definition extractFiles :: "(string \<times> string option \<times> segment list) list \<Rightarrow> nzb_file list" where
  "extractFiles items =
     map (\<lambda>(i, (subj, name, segs)).
            \<lparr>file_ix = i, subject = subj, filename = name,
             extension = (if truthy name then getExtension name else None),
             segments = segs\<rparr>)
         (enumerate 0 items)"

definition ARCHIVE_EXTENSIONS :: "string list" where
  "ARCHIVE_EXTENSIONS = [''.rar'', ''.r00'', ''.r01'', ''.r02'', ''.7z'']"

text \<open>\<^verbatim>\<open>/^\.r\d{2}$/i.test(ext)\<close>\<close>

definition isRNN :: "string \<Rightarrow> bool" where
  "isRNN ext =
     (case ext of
        [dot, r, d1, d2] \<Rightarrow> dot = CHR ''.'' \<and> toLowerChar r = CHR ''r'' \<and> isDigit d1 \<and> isDigit d2
      | _ \<Rightarrow> False)"

definition isArchiveFile :: "nzb_file \<Rightarrow> bool" where
  "isArchiveFile file =
     (let ext = (case extension file of Some e \<Rightarrow> Some e | None \<Rightarrow> getExtension (filename file))
      in if \<not> truthy ext then False
         else if the ext \<in> set ARCHIVE_EXTENSIONS then True
         else isRNN (the ext))"

text \<open>\<^verbatim>\<open>dedupeArchiveCandidates\<close>, with the set \<^verbatim>\<open>seen\<close> of canonical keys.\<close>

fun dedupe_loop :: "nzb_file list \<Rightarrow> string list \<Rightarrow> nzb_file list" where
  "dedupe_loop [] seen = []"
| "dedupe_loop (archive # archives) seen =
     (let key = canonicalArchiveKey
                  (case filename archive of Some f \<Rightarrow> Some f | None \<Rightarrow> Some (subject archive))
      in if \<not> truthy key then dedupe_loop archives seen
         else if the key \<in> set seen then dedupe_loop archives seen
         else archive # dedupe_loop archives (seen @ [the key]))"

definition dedupeArchiveCandidates :: "nzb_file list \<Rightarrow> nzb_file list" where
  "dedupeArchiveCandidates archives = dedupe_loop archives []"

text \<open>\<^verbatim>\<open>collectUniqueSegments\<close>: the loops over the files and over the segments of a file.\<close>

fun collectSegments_file ::
  "nzb_file \<Rightarrow> segment list \<Rightarrow> (nzb_file \<times> string) list \<Rightarrow> (nzb_file \<times> string) list" where
  "collectSegments_file file [] unique = unique"
| "collectSegments_file file (s # ss) unique =
     (if seg_id s = [] \<or> seg_id s \<in> set (map snd unique)
      then collectSegments_file file ss unique
      else collectSegments_file file ss (unique @ [(file, seg_id s)]))"

definition collectUniqueSegments :: "nzb_file list \<Rightarrow> (nzb_file \<times> string) list" where
  "collectUniqueSegments files = fold (\<lambda>file. collectSegments_file file (segments file)) files []"

text \<open>
  The Fisher-Yates loop of \<^verbatim>\<open>pickRandomElements\<close>, \<open>i\<close> running down to 1. The random
  generator is a sequence \<open>rnd\<close> of natural numbers and \<open>k\<close> counts the draws made so
  far; \<^verbatim>\<open>Math.floor(Math.random() * (i + 1))\<close> is the \<open>k\<close>-th number modulo \<open>i + 1\<close>, any
  of \<open>0..i\<close>.
\<close>

fun shuffle_loop :: "(nat \<Rightarrow> nat) \<Rightarrow> nat \<Rightarrow> nat \<Rightarrow> 'a list \<Rightarrow> 'a list" where
  "shuffle_loop rnd k 0 shuffled = shuffled"
| "shuffle_loop rnd k (Suc i') shuffled =
     (let i = Suc i'; j = rnd k mod (i + 1)
      in shuffle_loop rnd (k + 1) i' (shuffled[i := shuffled ! j, j := shuffled ! i]))"

definition pickRandomElements :: "(nat \<Rightarrow> nat) \<Rightarrow> nat \<Rightarrow> 'a list \<Rightarrow> nat \<Rightarrow> 'a list" where
  "pickRandomElements rnd k items maxCount =
     (if items = [] then []
      else take (min maxCount (length items)) (shuffle_loop rnd k (length items - 1) items))"

text \<open>The number of draws a call of \<^verbatim>\<open>pickRandomElements\<close> makes.\<close>

definition drawsOf :: "'a list \<Rightarrow> nat" where
  "drawsOf items = length items - 1"

subsection \<open>The context and the world\<close>

record triage_config =
  archiveDirs :: "string list"
  statSampleCount :: "int option"
  archiveSampleCount :: "int option"
  maxDecodedBytes :: nat

record triage_ctx =
  config :: triage_config
  nntpPool :: bool
  nntpError :: "js_error option"
  ctx_nzbIndex :: nat

text \<open>What \<^verbatim>\<open>fs.stat\<close> and the read of a path give.\<close>

datatype fs_outcome = Enoent | IoError string | NotAFile | FileBytes "byte list"

text \<open>
  What the analyzer asks of the world: the file system (by directory and name), what
  \<^verbatim>\<open>pool.acquire()\<close> gives to the operation on a segment id, what the server does with the
  STAT and the BODY of a segment id, and the random numbers.
\<close>

record triage_world =
  fsLookup :: "string \<Rightarrow> string \<Rightarrow> fs_outcome"
  acquire :: "string \<Rightarrow> js_error + nat option"
  statWorld :: "string \<Rightarrow> stat_world"
  bodyCallback :: "string \<Rightarrow> js_error option \<times> byte list option"
  random :: "nat \<Rightarrow> nat"

text \<open>
  The mutable locals of \<^verbatim>\<open>analyzeSingleNzb\<close>. \<open>statProbes\<close> is not a variable of the
  code: it is the trace of the STAT probes that \<^verbatim>\<open>runStatCheck\<close> issues, each with the
  position of the archive and the segment id. \<open>rndNext\<close> counts the random draws.
\<close>

record analysis_state =
  st_blockers :: "string list"
  st_warnings :: "string list"
  st_findings :: "finding list"
  checkedSegments :: "string list"
  storedArchiveFound :: bool
  statProbes :: "(nat \<times> string) list"
  rndNext :: nat

definition initialState :: analysis_state where
  "initialState = \<lparr>st_blockers = [], st_warnings = [], st_findings = [], checkedSegments = [],
                    storedArchiveFound = False, statProbes = [], rndNext = 0\<rparr>"

text \<open>
  \<^verbatim>\<open>statSegment(pool, segmentId)\<close>, which the analyzer calls only where the pool is
  there: \<open>None\<close> is success, \<open>Some err\<close> the rejection.
\<close>

definition statSegment :: "triage_world \<Rightarrow> string \<Rightarrow> js_error option" where
  "statSegment world segmentId =
     (case fst (runWithClient True (acquire world segmentId)
                  (\<lambda>client. statSegmentWithClient (statWorld world segmentId))) of
        Inl err \<Rightarrow> Some err
      | Inr u \<Rightarrow> None)"

definition isStatMissing :: "js_error \<Rightarrow> bool" where
  "isStatMissing err = (code err = Some (CodeStr ''STAT_MISSING'') \<or> code err = Some (CodeNum 430))"

text \<open>
  What follows a STAT probe in \<^verbatim>\<open>runStatCheck\<close> and in the branch without archive
  candidates: the finding, and the blocker or the warning.
\<close>

definition recordStat :: "nzb_file \<Rightarrow> string \<Rightarrow> js_error option \<Rightarrow> analysis_state \<Rightarrow> analysis_state" where
  "recordStat file segmentId outcome st =
     (let mk = (\<lambda>s. \<lparr>f_source = ''nntp-stat'', f_filename = filename file,
                      f_subject = subject file, f_status = s, f_segmentId = Some segmentId\<rparr>)
      in case outcome of
           None \<Rightarrow> st\<lparr>st_findings := st_findings st @ [mk ''segment-ok'']\<rparr>
         | Some err \<Rightarrow>
             if isStatMissing err then
               st\<lparr>st_blockers := setAdd ''missing-articles'' (st_blockers st),
                  st_findings := st_findings st @ [mk ''segment-missing'']\<rparr>
             else
               st\<lparr>st_warnings := setAdd ''nntp-stat-error'' (st_warnings st),
                  st_findings := st_findings st @ [mk ''segment-error'']\<rparr>)"

text \<open>
  \<^verbatim>\<open>runStatCheck(archive, segment)\<close>. The calls that one \<^verbatim>\<open>Promise.all\<close> starts run
  their test and update of \<^verbatim>\<open>checkedSegments\<close> in the order of the array, before any
  probe completes; the probes are taken to complete in that order too (this fixes the
  order of the findings only).
\<close>

definition runStatCheck :: "triage_world \<Rightarrow> nzb_file \<Rightarrow> segment \<Rightarrow> analysis_state \<Rightarrow> analysis_state" where
  "runStatCheck world archive seg st =
     (let segmentId = seg_id seg in
      if segmentId = [] \<or> segmentId \<in> set (checkedSegments st) then st
      else recordStat archive segmentId (statSegment world segmentId)
             (st\<lparr>checkedSegments := setAdd segmentId (checkedSegments st),
                 statProbes := statProbes st @ [(file_ix archive, segmentId)]\<rparr>))"

text \<open>\<^verbatim>\<open>handleArchiveStatus\<close>: the state with the blocker or warning added, and the result.\<close>

definition handleArchiveStatus :: "string \<Rightarrow> analysis_state \<Rightarrow> bool \<times> analysis_state" where
  "handleArchiveStatus s st =
     (if s = ''rar-stored'' \<or> s = ''sevenzip-stored'' then (True, st)
      else if s \<in> set [''rar-compressed'', ''rar-encrypted'', ''rar-solid'', ''rar5-unsupported'',
                        ''sevenzip-unsupported'']
        then (False, st\<lparr>st_blockers := setAdd s (st_blockers st)\<rparr>)
      else if s = ''stat-missing'' \<or> s = ''body-missing''
        then (False, st\<lparr>st_blockers := setAdd ''missing-articles'' (st_blockers st)\<rparr>)
      else if s \<in> set [''archive-not-found'', ''archive-no-segments'', ''rar-insufficient-data'',
                        ''rar-header-not-found'', ''io-error'', ''stat-error'', ''body-error'',
                        ''decode-error'', ''missing-filename'']
        then (False, st\<lparr>st_warnings := setAdd s (st_warnings st)\<rparr>)
      else (False, st))"

definition noteStatus :: "string \<Rightarrow> analysis_state \<Rightarrow> analysis_state" where
  "noteStatus s st =
     (let (stored, st') = handleArchiveStatus s st
      in if stored then st'\<lparr>storedArchiveFound := True\<rparr> else st')"

subsection \<open>The local check\<close>

text \<open>\<^verbatim>\<open>buildCandidateNames\<close>\<close>

definition buildCandidateNames :: "string \<Rightarrow> string list" where
  "buildCandidateNames name =
     (let candidates = [name];
          candidates = (if matchPartRar name \<noteq> None
                        then setAdd (replacePartRar name) candidates else candidates);
          candidates = (if matchRNN name \<noteq> None
                        then setAdd (replaceRNN name) candidates else candidates)
      in candidates)"

text \<open>
  The two loops of \<^verbatim>\<open>inspectLocalArchive\<close> over the directories and the candidate
  names, as one loop over the pairs; the result is the status.
\<close>

fun inspectLocal_loop :: "triage_world \<Rightarrow> (string \<times> string) list \<Rightarrow> string" where
  "inspectLocal_loop world [] = ''archive-not-found''"
| "inspectLocal_loop world ((dir, candidate) # rest) =
     (case fsLookup world dir candidate of
        FileBytes bytes \<Rightarrow> status (inspectArchiveBuffer bytes)
      | NotAFile \<Rightarrow> inspectLocal_loop world rest
      | Enoent \<Rightarrow> inspectLocal_loop world rest
      | IoError m \<Rightarrow> ''io-error'')"

definition inspectLocalArchive :: "triage_world \<Rightarrow> nzb_file \<Rightarrow> string list \<Rightarrow> string" where
  "inspectLocalArchive world file dirs =
     (if \<not> truthy (filename file) then ''missing-filename''
      else inspectLocal_loop world
             (concat (map (\<lambda>dir. map (\<lambda>c. (dir, c)) (buildCandidateNames (the (filename file))))
                          dirs)))"

definition localCheck :: "triage_world \<Rightarrow> string list \<Rightarrow> nzb_file \<Rightarrow> analysis_state \<Rightarrow> analysis_state" where
  "localCheck world dirs archive st =
     (let s = inspectLocalArchive world archive dirs
      in noteStatus s
           (st\<lparr>st_findings := st_findings st @
                  [\<lparr>f_source = ''local'', f_filename = filename archive,
                    f_subject = subject archive, f_status = s, f_segmentId = None\<rparr>]\<rparr>))"

subsection \<open>The remote check\<close>

text \<open>
  \<^verbatim>\<open>inspectArchiveViaNntp\<close>: the status and the segment id of the result, or the error
  that \<^verbatim>\<open>runWithClient\<close> throws when it gets no client. The handler itself catches
  every error of the STAT, the BODY and the decoding.
\<close>

definition bodyErrorStatus :: "js_error \<Rightarrow> string" where
  "bodyErrorStatus err =
     (if code err = Some (CodeStr ''BODY_MISSING'') then ''body-missing''
      else if code err = Some (CodeStr ''BODY_ERROR'') then ''body-error''
      else if code err = Some (CodeStr ''DECODE_ERROR'') then ''decode-error''
      else ''body-error'')"

definition nntpHandler :: "triage_world \<Rightarrow> nat \<Rightarrow> string \<Rightarrow> string \<times> string option" where
  "nntpHandler world maxBytes segmentId =
     (case statSegmentWithClient (statWorld world segmentId) of
        Inl err \<Rightarrow>
          if isStatMissing err then (''stat-missing'', Some segmentId)
          else (''stat-error'', Some segmentId)
      | Inr u \<Rightarrow>
          (case fetchSegmentBodyWithClient (bodyCallback world segmentId) of
             Inl err \<Rightarrow> (bodyErrorStatus err, Some segmentId)
           | Inr bodyBuffer \<Rightarrow>
               (case decodeYencBuffer bodyBuffer maxBytes of
                  Inl err \<Rightarrow> (bodyErrorStatus err, Some segmentId)
                | Inr decoded \<Rightarrow> (status (inspectArchiveBuffer decoded), Some segmentId))))"

definition inspectArchiveViaNntp ::
  "triage_ctx \<Rightarrow> triage_world \<Rightarrow> nzb_file \<Rightarrow> js_error + string \<times> string option" where
  "inspectArchiveViaNntp ctx world file =
     (if segments file = [] then Inr (''archive-no-segments'', None)
      else if seg_id (hd (segments file)) = [] then Inr (''archive-no-segments'', None)
      else fst (runWithClient (nntpPool ctx) (acquire world (seg_id (hd (segments file))))
                 (\<lambda>client. Inr (nntpHandler world (maxDecodedBytes (config ctx))
                                  (seg_id (hd (segments file)))))))"

text \<open>\<^verbatim>\<open>nntp-error:${code ?? message}\<close>: a number in decimal, an absent value as \<^verbatim>\<open>undefined\<close>.\<close>

fun showNat :: "nat \<Rightarrow> string" where
  "showNat n = (if n < 10 then [char_of (48 + n)] else showNat (n div 10) @ [char_of (48 + n mod 10)])"

definition showCode :: "js_code \<Rightarrow> string" where
  "showCode c = (case c of
                   CodeStr s \<Rightarrow> s
                 | CodeNum n \<Rightarrow> if n < 0 then CHR ''-'' # showNat (nat (- n)) else showNat (nat n))"

definition noPoolWarning :: "triage_ctx \<Rightarrow> string" where
  "noPoolWarning ctx =
     (case nntpError ctx of
        Some err \<Rightarrow> ''nntp-error:'' @ (case code err of
                                          Some c \<Rightarrow> showCode c
                                        | None \<Rightarrow> (case message err of Some m \<Rightarrow> m
                                                    | None \<Rightarrow> ''undefined''))
      | None \<Rightarrow> ''nntp-disabled'')"

text \<open>
  The remote check of \<^verbatim>\<open>analyzeSingleNzb\<close>: the state after it and the primary
  archive, or the error thrown.
\<close>

definition remoteCheck ::
  "triage_ctx \<Rightarrow> triage_world \<Rightarrow> nzb_file list \<Rightarrow> analysis_state
     \<Rightarrow> js_error + analysis_state \<times> nzb_file option" where
  "remoteCheck ctx world archiveCandidates st =
     (if \<not> nntpPool ctx then
        Inr (st\<lparr>st_warnings := setAdd (noPoolWarning ctx) (st_warnings st)\<rparr>, None)
      else
        (case find (\<lambda>candidate. segments candidate \<noteq> []) archiveCandidates of
           None \<Rightarrow> Inr (st\<lparr>st_warnings := setAdd ''archive-no-segments'' (st_warnings st)\<rparr>, None)
         | Some archiveWithSegments \<Rightarrow>
             (case inspectArchiveViaNntp ctx world archiveWithSegments of
                Inl err \<Rightarrow> Inl err
              | Inr (s, segmentId) \<Rightarrow>
                  (let mk = (\<lambda>src stt sid. \<lparr>f_source = src,
                                               f_filename = filename archiveWithSegments,
                                               f_subject = subject archiveWithSegments,
                                               f_status = stt, f_segmentId = sid\<rparr>);
                       st = st\<lparr>st_findings := st_findings st @ [mk ''nntp'' s segmentId]\<rparr>;
                       st = (if truthy segmentId then
                               (let st = st\<lparr>checkedSegments :=
                                             setAdd (the segmentId) (checkedSegments st)\<rparr>
                                in if s = ''rar-stored'' \<or> s = ''sevenzip-stored''
                                   then st\<lparr>st_findings := st_findings st @
                                              [mk ''nntp-stat'' ''segment-ok'' segmentId]\<rparr>
                                   else st)
                             else st)
                   in Inr (noteStatus s st, Some archiveWithSegments)))))"

subsection \<open>The extra STAT sampling\<close>

text \<open>The segments of the primary archive that have an id that was not checked yet.\<close>

definition availablePrimarySegments :: "nzb_file \<Rightarrow> analysis_state \<Rightarrow> segment list" where
  "availablePrimarySegments primaryArchive st =
     filter (\<lambda>seg. seg_id seg \<noteq> [] \<and> seg_id seg \<notin> set (checkedSegments st))
       (segments primaryArchive)"

text \<open>\<^verbatim>\<open>Math.max(0, Math.floor(ctx.config?.statSampleCount ?? 0))\<close>\<close>

definition extraStatChecks :: "triage_ctx \<Rightarrow> nat" where
  "extraStatChecks ctx = nat (max 0 (case statSampleCount (config ctx) of None \<Rightarrow> 0 | Some n \<Rightarrow> n))"

definition primarySamples :: "triage_ctx \<Rightarrow> triage_world \<Rightarrow> nzb_file \<Rightarrow> analysis_state \<Rightarrow> segment list" where
  "primarySamples ctx world primaryArchive st =
     pickRandomElements (random world) (rndNext st) (availablePrimarySegments primaryArchive st)
       (min (extraStatChecks ctx) (length (availablePrimarySegments primaryArchive st)))"

definition primarySampling ::
  "triage_ctx \<Rightarrow> triage_world \<Rightarrow> nzb_file option \<Rightarrow> analysis_state \<Rightarrow> analysis_state" where
  "primarySampling ctx world primaryArchive st =
     (case primaryArchive of
        None \<Rightarrow> st
      | Some p \<Rightarrow>
          if extraStatChecks ctx > 0 \<and> segments p \<noteq> [] then
            fold (runStatCheck world p) (primarySamples ctx world p st)
              (st\<lparr>rndNext := rndNext st + drawsOf (availablePrimarySegments p st)\<rparr>)
          else st)"

text \<open>\<^verbatim>\<open>Math.max(1, Math.floor(ctx.config?.archiveSampleCount ?? 1))\<close>\<close>

definition archiveSamples :: "triage_ctx \<Rightarrow> nat" where
  "archiveSamples ctx = nat (max 1 (case archiveSampleCount (config ctx) of None \<Rightarrow> 1 | Some n \<Rightarrow> n))"

text \<open>
  The other archives that can be sampled: they have segments, are not the primary
  archive, and their first segment has an id that was not checked yet.
\<close>

definition eligibleArchives :: "nzb_file option \<Rightarrow> nzb_file list \<Rightarrow> analysis_state \<Rightarrow> nzb_file list" where
  "eligibleArchives primaryArchive archiveCandidates st =
     filter (\<lambda>archive. seg_id (hd (segments archive)) \<noteq> []
                        \<and> seg_id (hd (segments archive)) \<notin> set (checkedSegments st))
       (filter (\<lambda>archive. segments archive \<noteq> [] \<and> Some archive \<noteq> primaryArchive)
          archiveCandidates)"

text \<open>The callback of \<^verbatim>\<open>sampleArchives.map\<close>: STAT the first unchecked segment, if any.\<close>

definition statFirstUnchecked :: "triage_world \<Rightarrow> nzb_file \<Rightarrow> analysis_state \<Rightarrow> analysis_state" where
  "statFirstUnchecked world archive st =
     (case find (\<lambda>entry. seg_id entry \<noteq> [] \<and> seg_id entry \<notin> set (checkedSegments st))
             (segments archive) of
        None \<Rightarrow> st
      | Some seg \<Rightarrow> runStatCheck world archive seg st)"

definition sampleArchives ::
  "triage_ctx \<Rightarrow> triage_world \<Rightarrow> nzb_file option \<Rightarrow> nzb_file list \<Rightarrow> analysis_state \<Rightarrow> nzb_file list" where
  "sampleArchives ctx world primaryArchive archiveCandidates st =
     pickRandomElements (random world) (rndNext st)
       (eligibleArchives primaryArchive archiveCandidates st) (archiveSamples ctx)"

definition otherSampling ::
  "triage_ctx \<Rightarrow> triage_world \<Rightarrow> nzb_file option \<Rightarrow> nzb_file list \<Rightarrow> analysis_state \<Rightarrow> analysis_state" where
  "otherSampling ctx world primaryArchive archiveCandidates st =
     fold (statFirstUnchecked world)
       (sampleArchives ctx world primaryArchive archiveCandidates st)
       (st\<lparr>rndNext := rndNext st + drawsOf (eligibleArchives primaryArchive archiveCandidates st)\<rparr>)"

text \<open>
  The block \<^verbatim>\<open>if (ctx.nntpPool && storedArchiveFound && blockers.size === 0)\<close> of
  \<^verbatim>\<open>analyzeSingleNzb\<close>.
\<close>

definition extraStatSampling ::
  "triage_ctx \<Rightarrow> triage_world \<Rightarrow> nzb_file option \<Rightarrow> nzb_file list \<Rightarrow> analysis_state \<Rightarrow> analysis_state" where
  "extraStatSampling ctx world primaryArchive archiveCandidates st =
     (if nntpPool ctx \<and> storedArchiveFound st \<and> st_blockers st = [] then
        otherSampling ctx world primaryArchive archiveCandidates
          (primarySampling ctx world primaryArchive st)
      else st)"

subsection \<open>One NZB\<close>

text \<open>\<^verbatim>\<open>buildDecision\<close> with the decision computed from the blockers, as both returns do.\<close>

definition finishDecision :: "triage_ctx \<Rightarrow> nat \<Rightarrow> string option \<Rightarrow> analysis_state \<Rightarrow> nzb_decision" where
  "finishDecision ctx nFiles ttl st =
     \<lparr>decision = (if st_blockers st = [] then ''accept'' else ''reject''),
      blockers = st_blockers st, warnings = st_warnings st, fileCount = nFiles,
      nzbTitle = ttl, nzbIndex = ctx_nzbIndex ctx, archiveFindings = st_findings st\<rparr>"

text \<open>
  The branch \<^verbatim>\<open>if (archiveCandidates.length === 0)\<close>: STAT probes on a random sample of
  the unique segments.
\<close>

definition noArchiveBranch :: "triage_ctx \<Rightarrow> triage_world \<Rightarrow> nzb_file list \<Rightarrow> analysis_state" where
  "noArchiveBranch ctx world files =
     (let st = initialState\<lparr>st_warnings := [''no-archive-candidates'']\<rparr>;
          uniqueSegments = collectUniqueSegments files
      in if \<not> nntpPool ctx then st\<lparr>st_warnings := setAdd (noPoolWarning ctx) (st_warnings st)\<rparr>
         else if uniqueSegments \<noteq> [] then
           (let n = nat (max 1 (case statSampleCount (config ctx) of None \<Rightarrow> 1 | Some n \<Rightarrow> n));
                sampledSegments = pickRandomElements (random world) 0 uniqueSegments n
            in fold (\<lambda>(file, segmentId). recordStat file segmentId (statSegment world segmentId))
                 sampledSegments (st\<lparr>rndNext := drawsOf uniqueSegments\<rparr>))
         else st)"

text \<open>
  The parsed NZB: the file nodes and the title of the head. \<^verbatim>\<open>analyzeSingleNzb\<close> gets
  the outcome of the XML parser, which may be an error.
\<close>

record parsed_nzb =
  fileNodes :: "(string \<times> string option \<times> segment list) list"
  headTitle :: "string option"

text \<open>
  The local and the remote check, in the branch with archive candidates: the state
  and the primary archive, or the error thrown.
\<close>

definition checksBeforeSampling ::
  "triage_ctx \<Rightarrow> triage_world \<Rightarrow> nzb_file list \<Rightarrow> js_error + analysis_state \<times> nzb_file option" where
  "checksBeforeSampling ctx world archiveCandidates =
     remoteCheck ctx world archiveCandidates
       (if archiveDirs (config ctx) \<noteq> []
        then fold (localCheck world (archiveDirs (config ctx))) archiveCandidates initialState
        else initialState)"

text \<open>The branch with archive candidates up to the decision: the final state.\<close>

definition analyzeArchives ::
  "triage_ctx \<Rightarrow> triage_world \<Rightarrow> nzb_file list \<Rightarrow> js_error + analysis_state" where
  "analyzeArchives ctx world archiveCandidates =
     (case checksBeforeSampling ctx world archiveCandidates of
        Inl err \<Rightarrow> Inl err
      | Inr (st, primaryArchive) \<Rightarrow>
          (let st = extraStatSampling ctx world primaryArchive archiveCandidates st;
               st = (if \<not> storedArchiveFound st \<and> st_blockers st = []
                     then st\<lparr>st_warnings := setAdd ''rar-m0-unverified'' (st_warnings st)\<rparr>
                     else st)
           in Inr st))"

definition analyzeSingleNzb ::
  "triage_ctx \<Rightarrow> triage_world \<Rightarrow> js_error + parsed_nzb \<Rightarrow> js_error + nzb_decision" where
  "analyzeSingleNzb ctx world parsed =
     (case parsed of
        Inl parseError \<Rightarrow> Inl parseError
      | Inr doc \<Rightarrow>
          (let files = extractFiles (fileNodes doc);
               archiveCandidates = dedupeArchiveCandidates (filter isArchiveFile files)
           in
           if archiveCandidates = [] then
             Inr (finishDecision ctx (length files) (headTitle doc)
                    (noArchiveBranch ctx world files))
           else
             (case analyzeArchives ctx world archiveCandidates of
                Inl err \<Rightarrow> Inl err
              | Inr st \<Rightarrow> Inr (finishDecision ctx (length files) (headTitle doc) st))))"

text \<open>\<^verbatim>\<open>buildErrorDecision\<close>\<close>

definition truthyCode :: "js_code option \<Rightarrow> bool" where
  "truthyCode c = (case c of None \<Rightarrow> False | Some (CodeNum n) \<Rightarrow> n \<noteq> 0 | Some (CodeStr s) \<Rightarrow> s \<noteq> [])"

definition buildErrorDecision :: "js_error \<Rightarrow> nat \<Rightarrow> nzb_decision" where
  "buildErrorDecision err index =
     (let ws = [];
          ws = (if truthyCode (code err) then setAdd (''code:'' @ showCode (the (code err))) ws else ws);
          ws = (if truthy (message err) then setAdd (the (message err)) ws else ws);
          ws = (if ws = [] then [''analysis-failed''] else ws)
      in \<lparr>decision = ''reject'', blockers = [''analysis-error''], warnings = ws, fileCount = 0,
          nzbTitle = None, nzbIndex = index, archiveFindings = []\<rparr>)"

text \<open>
  The body of the worker loop of \<^verbatim>\<open>analyzeWithConcurrency\<close> for one index: the
  decision of the analysis, or the error decision when the analysis threw.
\<close>

definition analyzeOne :: "triage_ctx \<Rightarrow> triage_world \<Rightarrow> js_error + parsed_nzb \<Rightarrow> nzb_decision" where
  "analyzeOne ctx world parsed =
     (case analyzeSingleNzb ctx world parsed of
        Inr d \<Rightarrow> d
      | Inl err \<Rightarrow> buildErrorDecision err (ctx_nzbIndex ctx))"

subsection \<open>The decision and the blockers\<close>

lemma finishDecision_accept_iff:
  "decision (finishDecision ctx n t st) = ''accept'' \<longleftrightarrow> blockers (finishDecision ctx n t st) = []"
  by (simp add: finishDecision_def)

lemma analyzeSingleNzb_Inr:
  assumes "analyzeSingleNzb ctx world parsed = Inr d"
  shows "\<exists>n t st. d = finishDecision ctx n t st"
  using assms
  by (auto simp: analyzeSingleNzb_def Let_def split: sum.splits if_splits)

lemma buildErrorDecision_reject:
  "decision (buildErrorDecision err i) = ''reject'' \<and> blockers (buildErrorDecision err i) \<noteq> []"
  by (simp add: buildErrorDecision_def Let_def)

text \<open>
  C1. For every NZB analyzed, whatever the world does, and also when the analysis
  threw and the error was turned into a decision: the decision is \<open>accept\<close> if and only
  if the blockers are empty.
\<close>

theorem analyzeOne_accept_iff_no_blockers:
  "decision (analyzeOne ctx world parsed) = ''accept''
     \<longleftrightarrow> blockers (analyzeOne ctx world parsed) = []"
proof (cases "analyzeSingleNzb ctx world parsed")
  case (Inl err)
  then show ?thesis using buildErrorDecision_reject [of err "ctx_nzbIndex ctx"]
    by (simp add: analyzeOne_def)
next
  case (Inr d)
  then obtain n t st where "d = finishDecision ctx n t st"
    using analyzeSingleNzb_Inr by blast
  with Inr show ?thesis by (simp add: analyzeOne_def finishDecision_accept_iff)
qed

subsection \<open>The probes of the extra STAT sampling\<close>


















subsection \<open>A sample analysis\<close>












end
